theory Spec2Isabelle
  imports Complex_Main
begin

section \<open>Data model of CFactorGraphModel\<close>

text \<open>
  The embedding follows \<^verbatim>\<open>src/shogun/structure/FactorGraphModel.cpp\<close> and
  \<^verbatim>\<open>src/shogun/preprocessor/SumOne.cpp\<close>.

  Conventions.
  \<^item> \<^verbatim>\<open>float64_t\<close> values are modelled by \<^typ>\<open>real\<close>: finite values with exact
    arithmetic; rounding, NaN and signed zeros are not modelled.
  \<^item> \<^verbatim>\<open>int32_t\<close> type ids, weight dimensions and table indices are \<^typ>\<open>int\<close>,
    vector lengths and positions are \<^typ>\<open>nat\<close>; all sizes are taken to fit 32 bits, so the
    wrap-around of \<^verbatim>\<open>int32_t\<close> is not modelled.
  \<^item> \<^verbatim>\<open>REQUIRE\<close> raises a configuration error, \<^verbatim>\<open>ASSERT\<close> an assertion failure; a
    read or write outside a vector is undefined behaviour in C++ and is the error
    \<open>OutOfBounds\<close> here. A failing call returns \<open>Inl\<close> and no state.
  \<^item> \<^verbatim>\<open>m_verbose\<close> only prints and is left out. \<^verbatim>\<open>m_factor_types\<close> is allocated by
    \<^verbatim>\<open>init\<close> and never reset, so the two \<^verbatim>\<open>REQUIRE(m_factor_types != NULL)\<close> always
    pass and are left out. Reference counting is left out.
\<close>

datatype error = ConfigurationError | AssertionFailed | OutOfBounds

datatype EMAPInferType =
  TREE_MAX_PROD | LOOPY_MAX_PROD | LP_RELAXATION | TRWS_MAX_PROD | GEMPLP | GRAPH_CUT

text \<open>
  A factor type as the model reads it through \<^verbatim>\<open>get_type_id\<close>, \<^verbatim>\<open>get_w_dim\<close>,
  \<^verbatim>\<open>get_w\<close>, \<^verbatim>\<open>get_cardinalities\<close> and \<^verbatim>\<open>get_num_assignments\<close>. The class itself is
  not part of the sources, so \<open>w_dim\<close> is kept as a field of its own and the code's
  assertions relating it to the length of \<open>w\<close> are branches of the model.
\<close>

record factor_type =
  type_id :: int
  w_dim :: int
  w :: "real list"
  cardinalities :: "int list"
  num_assignments :: int

text \<open>A factor: its (table) factor type, its data vector and its variables.\<close>

record factor =
  fac_type :: factor_type
  fac_data :: "real list"
  fac_variables :: "int list"

text \<open>A label: the states of the variables and the loss weight of each position.\<close>

record observation =
  obs_data :: "int list"
  loss_weights :: "real list"

text \<open>
  The model object. \<open>m_features\<close> gives the factor graph of each example (of an abstract
  type \<open>'g\<close>, the graph class is an external collaborator) and \<open>m_labels\<close> its ground truth.
\<close>

record 'g model =
  m_factor_types :: "factor_type list"
  m_w_cache :: "real list"
  m_w_map :: "int list"
  m_inf_type :: EMAPInferType
  m_features :: "int \<Rightarrow> 'g"
  m_labels :: "int \<Rightarrow> observation"

definition init :: "(int \<Rightarrow> 'g) \<Rightarrow> (int \<Rightarrow> observation) \<Rightarrow> 'g model" where
  "init features labels =
     \<lparr> m_factor_types = [], m_w_cache = [], m_w_map = [],
       m_inf_type = TREE_MAX_PROD, m_features = features, m_labels = labels \<rparr>"

subsection \<open>Vector primitives\<close>

text \<open>
  Modelled from the spec: \<^verbatim>\<open>SGVector::find\<close> is not in the sources; \<open>slots_for\<close> returns
  "the ordered list of global-vector indices belonging to \<open>type_id\<close>".
\<close>

definition find_vec :: "int list \<Rightarrow> int \<Rightarrow> nat list" where
  "find_vec v elem = filter (\<lambda>i. v ! i = elem) [0..<length v]"

text \<open>
  Modelled from the spec: \<^verbatim>\<open>SGVector::resize_vector\<close> is not in the sources. It keeps the
  common prefix; entries beyond the old length are taken to be zero (every caller
  overwrites them before they are read whenever its assertions pass).
\<close>

definition resize_vector :: "'a::zero list \<Rightarrow> nat \<Rightarrow> 'a list" where
  "resize_vector v n = take n v @ replicate (n - length v) 0"

definition get_dim :: "('g, 'z) model_scheme \<Rightarrow> nat" where
  "get_dim m = length (m_w_map m)"

definition get_params_mapping :: "('g, 'z) model_scheme \<Rightarrow> int \<Rightarrow> nat list" where
  "get_params_mapping m ftype_id = find_vec (m_w_map m) ftype_id"

subsection \<open>fparams_to_w and w_to_fparams\<close>

text \<open>The inner loop \<^verbatim>\<open>for wi < w_dim: m_w_cache[fw_map[wi]] = fw[wi]\<close>.\<close>

primrec scatter_loop :: "nat list \<Rightarrow> nat list \<Rightarrow> real list \<Rightarrow> real list \<Rightarrow> error + real list" where
  "scatter_loop [] fw_map fw cache = Inr cache"
| "scatter_loop (wi # wis) fw_map fw cache =
     (if wi < length fw_map \<and> wi < length fw \<and> fw_map ! wi < length cache
      then scatter_loop wis fw_map fw (cache[fw_map ! wi := fw ! wi])
      else Inl OutOfBounds)"

text \<open>The loop over the registered factor types, carrying \<open>offset\<close> and the cache.\<close>

primrec fparams_loop ::
  "int list \<Rightarrow> factor_type list \<Rightarrow> int \<Rightarrow> real list \<Rightarrow> error + (int \<times> real list)" where
  "fparams_loop wmap [] offset cache = Inr (offset, cache)"
| "fparams_loop wmap (ftype # rest) offset cache =
     (let fw = w ftype; fw_map = find_vec wmap (type_id ftype)
      in if length fw_map \<noteq> length fw then Inl AssertionFailed
         else case scatter_loop [0..<nat (w_dim ftype)] fw_map fw cache of
                Inl e \<Rightarrow> Inl e
              | Inr cache' \<Rightarrow> fparams_loop wmap rest (offset + w_dim ftype) cache')"

definition fparams_to_w :: "'g model \<Rightarrow> error + (real list \<times> 'g model)" where
  "fparams_to_w m =
     (let cache0 = (if length (m_w_cache m) \<noteq> get_dim m
                    then resize_vector (m_w_cache m) (get_dim m) else m_w_cache m)
      in case fparams_loop (m_w_map m) (m_factor_types m) 0 cache0 of
           Inl e \<Rightarrow> Inl e
         | Inr (offset, cache) \<Rightarrow>
             if offset \<noteq> int (length cache) then Inl AssertionFailed
             else Inr (cache, m\<lparr>m_w_cache := cache\<rparr>))"

text \<open>
  The inner loop \<^verbatim>\<open>for wi < w_dim: fw[wi] = m_w_cache[fw_map[wi]]\<close> into a fresh vector
  of length \<open>w_dim\<close>; every entry of the fresh vector is written.
\<close>

definition gather :: "nat \<Rightarrow> nat list \<Rightarrow> real list \<Rightarrow> error + real list" where
  "gather n fw_map cache =
     (if \<forall>wi \<in> set [0..<n]. wi < length fw_map \<and> fw_map ! wi < length cache
      then Inr (map (\<lambda>wi. cache ! (fw_map ! wi)) [0..<n])
      else Inl OutOfBounds)"

primrec w_loop ::
  "int list \<Rightarrow> real list \<Rightarrow> factor_type list \<Rightarrow> int \<Rightarrow> error + (int \<times> factor_type list)" where
  "w_loop wmap cache [] offset = Inr (offset, [])"
| "w_loop wmap cache (ftype # rest) offset =
     (case gather (nat (w_dim ftype)) (find_vec wmap (type_id ftype)) cache of
        Inl e \<Rightarrow> Inl e
      | Inr fw \<Rightarrow>
          (case w_loop wmap cache rest (offset + w_dim ftype) of
             Inl e \<Rightarrow> Inl e
           | Inr (offset', rest') \<Rightarrow> Inr (offset', ftype\<lparr>w := fw\<rparr> # rest')))"

text \<open>
  Modelled from the spec: \<^verbatim>\<open>SGVector::equals\<close> is not in the sources; the spec has
  "element-wise equal to the cached vector", which on lists is equality.
\<close>

definition w_to_fparams :: "real list \<Rightarrow> 'g model \<Rightarrow> error + 'g model" where
  "w_to_fparams wv m =
     (if m_w_cache m = wv then Inr m
      else if length wv \<noteq> length (m_w_cache m) then Inl AssertionFailed
      else case w_loop (m_w_map m) wv (m_factor_types m) 0 of
             Inl e \<Rightarrow> Inl e
           | Inr (offset, types') \<Rightarrow>
               if offset \<noteq> int (length wv) then Inl AssertionFailed
               else Inr (m\<lparr>m_w_cache := wv, m_factor_types := types'\<rparr>))"

subsection \<open>add_factor_type and del_factor_type\<close>

text \<open>The two loops that fill the resized map: the old entries, then the new id.\<close>

definition copy_prefix :: "int list \<Rightarrow> int list \<Rightarrow> int list" where
  "copy_prefix w_map_cp v = fold (\<lambda>mi v. v[mi := w_map_cp ! mi]) [0..<length w_map_cp] v"

definition fill_tail :: "nat \<Rightarrow> int \<Rightarrow> int list \<Rightarrow> int list" where
  "fill_tail from x v = fold (\<lambda>mi v. v[mi := x]) [from..<length v] v"

definition add_factor_type :: "factor_type \<Rightarrow> 'g model \<Rightarrow> error + 'g model" where
  "add_factor_type ftype m =
     (if \<not> 0 < w_dim ftype then Inl ConfigurationError
      else if list_ex (\<lambda>ft. type_id ftype = type_id ft) (m_factor_types m) then Inr m
      else
        let w_map_cp = m_w_map m;
            resized = resize_vector (m_w_map m) (length w_map_cp + nat (w_dim ftype));
            w_map' = fill_tail (length w_map_cp) (type_id ftype) (copy_prefix w_map_cp resized);
            m' = m\<lparr>m_w_map := w_map', m_factor_types := m_factor_types m @ [ftype]\<rparr>
        in case fparams_to_w m' of Inl e \<Rightarrow> Inl e | Inr (cache, m'') \<Rightarrow> Inr m'')"

text \<open>
  The scan of \<^verbatim>\<open>del_factor_type\<close>: the weight dimension of the first type with the given
  id (0 when there is none) and the registry without that element.
\<close>

primrec del_scan :: "int \<Rightarrow> factor_type list \<Rightarrow> int \<times> factor_type list" where
  "del_scan ftype_id [] = (0, [])"
| "del_scan ftype_id (ftype # rest) =
     (if ftype_id = type_id ftype then (w_dim ftype, rest)
      else (case del_scan ftype_id rest of (d, rest') \<Rightarrow> (d, ftype # rest')))"

text \<open>The copy loop of \<^verbatim>\<open>del_factor_type\<close>, carrying \<open>ind\<close> and the resized map.\<close>

primrec del_copy :: "int \<Rightarrow> int list \<Rightarrow> nat \<Rightarrow> int list \<Rightarrow> error + (nat \<times> int list)" where
  "del_copy ftype_id [] ind v = Inr (ind, v)"
| "del_copy ftype_id (x # xs) ind v =
     (if x = ftype_id then del_copy ftype_id xs ind v
      else if ind < length v then del_copy ftype_id xs (Suc ind) (v[ind := x])
      else Inl OutOfBounds)"

definition del_factor_type :: "int \<Rightarrow> 'g model \<Rightarrow> error + 'g model" where
  "del_factor_type ftype_id m =
     (case del_scan ftype_id (m_factor_types m) of
        (d, types') \<Rightarrow>
          if d = 0 then Inl AssertionFailed
          else
            let w_map_cp = m_w_map m
            in if int (length w_map_cp) - d < 0 then Inl OutOfBounds
               else
                 case del_copy ftype_id w_map_cp 0
                        (resize_vector (m_w_map m) (nat (int (length w_map_cp) - d))) of
                   Inl e \<Rightarrow> Inl e
                 | Inr (ind, w_map') \<Rightarrow>
                     if ind \<noteq> length w_map' then Inl AssertionFailed
                     else Inr (m\<lparr>m_factor_types := types', m_w_map := w_map'\<rparr>))"

subsection \<open>External collaborators\<close>

text \<open>
  The factor graph class, the table factor type and the MAP inference routine are not part
  of the sources; the model calls them through this record of functions. A graph has the
  abstract type \<open>'g\<close>; an operation that mutates the graph returns the new graph.
  \<open>compute_energies\<close> reads the weights of the registered factor types, which the graph's
  factors share with the registry. \<open>inference\<close> stands for constructing
  \<^verbatim>\<open>CMAPInference\<close>, running \<^verbatim>\<open>inference()\<close> and reading
  \<^verbatim>\<open>get_structured_outputs()\<close>.
\<close>

record 'g collaborators =
  get_factors :: "'g \<Rightarrow> factor list"
  index_from_universe_assignment :: "factor_type \<Rightarrow> int list \<Rightarrow> int list \<Rightarrow> int"
  connect_components :: "'g \<Rightarrow> 'g"
  is_tree_graph :: "'g \<Rightarrow> bool"
  compute_energies :: "factor_type list \<Rightarrow> 'g \<Rightarrow> 'g"
  evaluate_energy :: "'g \<Rightarrow> int list \<Rightarrow> real"
  loss_augmentation :: "'g \<Rightarrow> observation \<Rightarrow> 'g"
  inference :: "EMAPInferType \<Rightarrow> 'g \<Rightarrow> 'g \<times> observation"

subsection \<open>get_joint_feature_vector\<close>

text \<open>The inner loop \<^verbatim>\<open>for di < dat_size: psi[w_map[ei*dat_size + di]] += dat[di]\<close>.\<close>

primrec psi_loop :: "nat list \<Rightarrow> nat list \<Rightarrow> int \<Rightarrow> real list \<Rightarrow> real list \<Rightarrow> error + real list" where
  "psi_loop [] w_map ei dat psi = Inr psi"
| "psi_loop (di # dis) w_map ei dat psi =
     (let k = ei * int (length dat) + int di
      in if 0 \<le> k \<and> nat k < length w_map \<and> w_map ! nat k < length psi \<and> di < length dat
         then psi_loop dis w_map ei dat
                (psi[w_map ! nat k := psi ! (w_map ! nat k) + dat ! di])
         else Inl OutOfBounds)"

text \<open>The loop over the factors of the graph, with its two assertions.\<close>

primrec factors_loop ::
  "(factor_type \<Rightarrow> int list \<Rightarrow> int list \<Rightarrow> int) \<Rightarrow> int list \<Rightarrow> int list \<Rightarrow> factor list \<Rightarrow>
   real list \<Rightarrow> error + real list" where
  "factors_loop ifua wmap states [] psi = Inr psi"
| "factors_loop ifua wmap states (fac # facs) psi =
     (let ftype = fac_type fac;
          w_map = find_vec wmap (type_id ftype);
          dat = fac_data fac;
          dat_size = length dat
      in if int (length w_map) \<noteq> w_dim ftype then Inl AssertionFailed
         else if int (length w_map) \<noteq> int dat_size * num_assignments ftype then Inl AssertionFailed
         else case psi_loop [0..<dat_size] w_map (ifua ftype states (fac_variables fac)) dat psi of
                Inl e \<Rightarrow> Inl e
              | Inr psi' \<Rightarrow> factors_loop ifua wmap states facs psi')"

text \<open>\<^verbatim>\<open>SGVector::scale\<close> multiplies every entry.\<close>

definition scale :: "real list \<Rightarrow> real \<Rightarrow> real list" where
  "scale v alpha = map (\<lambda>x. x * alpha) v"

definition get_joint_feature_vector ::
  "'g collaborators \<Rightarrow> 'g model \<Rightarrow> int \<Rightarrow> observation \<Rightarrow> error + real list" where
  "get_joint_feature_vector ext m feat_idx y =
     (let fg = m_features m feat_idx;
          states = obs_data y;
          psi = replicate (get_dim m) 0;
          facs = get_factors ext fg
      in case factors_loop (index_from_universe_assignment ext) (m_w_map m) states facs psi of
           Inl e \<Rightarrow> Inl e
         | Inr psi' \<Rightarrow> Inr (scale psi' (- 1)))"

subsection \<open>delta_loss\<close>

primrec delta_loop :: "nat list \<Rightarrow> int list \<Rightarrow> int list \<Rightarrow> real list \<Rightarrow> real \<Rightarrow> error + real" where
  "delta_loop [] s_pred s_truth lw loss = Inr loss"
| "delta_loop (si # sis) s_pred s_truth lw loss =
     (if s_pred ! si \<noteq> s_truth ! si
      then (if si < length lw then delta_loop sis s_pred s_truth lw (loss + lw ! si)
            else Inl OutOfBounds)
      else delta_loop sis s_pred s_truth lw loss)"

definition delta_loss :: "observation \<Rightarrow> observation \<Rightarrow> error + real" where
  "delta_loss y_truth y_pred =
     (let s_truth = obs_data y_truth; s_pred = obs_data y_pred
      in if length s_pred \<noteq> length s_truth then Inl AssertionFailed
         else delta_loop [0..<length s_pred] s_pred s_truth (loss_weights y_truth) 0)"

subsection \<open>argmax\<close>

text \<open>
  The calls \<^verbatim>\<open>argmax\<close> makes on the graph and on itself, in order. The log is kept
  beside the result; it is what a spy on the structure instance would record.
\<close>

datatype event =
  Connect_components | Is_tree_graph | Compute_energies
  | Joint_feature_vector observation | Evaluate_energy "int list"
  | Loss_augmentation observation | Inference

record result_set =
  rs_argmax :: observation
  rs_psi_computed :: bool
  rs_psi_truth :: "real list"
  rs_psi_pred :: "real list"
  rs_score :: real
  rs_delta :: real

text \<open>
  The first part of \<^verbatim>\<open>argmax\<close>, up to \<^verbatim>\<open>fg->compute_energies()\<close>: it connects the
  components, checks the tree shape under \<^verbatim>\<open>TREE_MAX_PROD\<close>, pushes the weights into
  the factor types and recomputes the energies. The graph of the example is mutated in
  place, so the model returned holds the new graph.
\<close>

definition argmax_prepare ::
  "'g collaborators \<Rightarrow> 'g model \<Rightarrow> real list \<Rightarrow> int \<Rightarrow> event list \<times> (error + 'g model)" where
  "argmax_prepare ext m wv feat_idx =
     (let fg = connect_components ext (m_features m feat_idx);
          m0 = m\<lparr>m_features := (m_features m)(feat_idx := fg)\<rparr>;
          tr = Connect_components # (if m_inf_type m = TREE_MAX_PROD then [Is_tree_graph] else [])
      in if m_inf_type m = TREE_MAX_PROD \<and> \<not> is_tree_graph ext fg then (tr, Inl AssertionFailed)
         else case w_to_fparams wv m0 of
                Inl e \<Rightarrow> (tr, Inl e)
              | Inr m1 \<Rightarrow>
                  (tr @ [Compute_energies],
                   Inr (m1\<lparr>m_features := (m_features m1)
                             (feat_idx := compute_energies ext (m_factor_types m1) (m_features m1 feat_idx))\<rparr>)))"

text \<open>
  The rest of \<^verbatim>\<open>argmax\<close>: the ground truth and its energy, the optional loss
  augmentation, the inference, the prediction and its energy, and the loss.
\<close>

definition argmax ::
  "'g collaborators \<Rightarrow> 'g model \<Rightarrow> real list \<Rightarrow> int \<Rightarrow> bool \<Rightarrow>
   event list \<times> (error + (result_set \<times> 'g model))" where
  "argmax ext m wv feat_idx training =
     (case argmax_prepare ext m wv feat_idx of
        (tr, Inl e) \<Rightarrow> (tr, Inl e)
      | (tr, Inr m2) \<Rightarrow>
          let fg = m_features m2 feat_idx;
              y_truth = m_labels m2 feat_idx;
              states_gt = obs_data y_truth
          in case get_joint_feature_vector ext m2 feat_idx y_truth of
               Inl e \<Rightarrow> (tr @ [Joint_feature_vector y_truth], Inl e)
             | Inr psi_t \<Rightarrow>
                 let energy_gt = evaluate_energy ext fg states_gt;
                     tr2 = tr @ [Joint_feature_vector y_truth, Evaluate_energy states_gt];
                     fg_aug = (if training then loss_augmentation ext fg y_truth else fg);
                     tr3 = tr2 @ (if training then [Loss_augmentation y_truth] else []);
                     inf = inference ext (m_inf_type m2) fg_aug;
                     y_star = snd inf;
                     m3 = m2\<lparr>m_features := (m_features m2)(feat_idx := fst inf)\<rparr>;
                     tr4 = tr3 @ [Inference, Joint_feature_vector y_star]
                 in case get_joint_feature_vector ext m3 feat_idx y_star of
                      Inl e \<Rightarrow> (tr4, Inl e)
                    | Inr psi_p \<Rightarrow>
                        let l_energy_pred = evaluate_energy ext (fst inf) (obs_data y_star);
                            tr5 = tr4 @ [Evaluate_energy (obs_data y_star)]
                        in case delta_loss y_truth y_star of
                             Inl e \<Rightarrow> (tr5, Inl e)
                           | Inr d \<Rightarrow>
                               (tr5,
                                Inr (\<lparr> rs_argmax = y_star, rs_psi_computed = True,
                                       rs_psi_truth = psi_t, rs_psi_pred = psi_p,
                                       rs_score = energy_gt - l_energy_pred, rs_delta = d \<rparr>,
                                     m3)))"


subsection \<open>init_primal_opt\<close>

text \<open>
  An entry of the bound vectors: a finite value, \<^verbatim>\<open>-CMath::INFTY\<close> or
  \<^verbatim>\<open>CMath::INFTY\<close>.
\<close>

datatype bound = MinusInfty | Finite real | PlusInfty

text \<open>
  Modelled from the spec: \<^verbatim>\<open>SGMatrix::create_identity_matrix\<close> is not in the sources;
  the spec has "identity scaled by \<open>regularization\<close>, size = current dimension". A matrix
  is the list of its rows.
\<close>

definition create_identity_matrix :: "nat \<Rightarrow> real \<Rightarrow> real list list" where
  "create_identity_matrix n scale_by =
     map (\<lambda>i. map (\<lambda>j. if i = j then scale_by else 0) [0..<n]) [0..<n]"

text \<open>
  The loop of the \<^verbatim>\<open>GRAPH_CUT\<close> case. The six assignments read \<open>fw_map\<close> at 0..3 and
  write \<open>lb\<close> and \<open>ub\<close> there.
\<close>

primrec primal_loop ::
  "int list \<Rightarrow> factor_type list \<Rightarrow> bound list \<Rightarrow> bound list \<Rightarrow> error + (bound list \<times> bound list)" where
  "primal_loop wmap [] lb ub = Inr (lb, ub)"
| "primal_loop wmap (ftype # rest) lb ub =
     (let card = cardinalities ftype
      in if length card = 2 \<and> card ! 0 = 2 \<and> card ! 1 = 2
         then
           if w_dim ftype \<noteq> 4 then Inl ConfigurationError
           else
             let fw = w ftype; fw_map = find_vec wmap (type_id ftype)
             in if length fw_map \<noteq> length fw then Inl AssertionFailed
                else if \<not> list_all (\<lambda>k. k < length fw_map \<and> fw_map ! k < length lb \<and>
                                         fw_map ! k < length ub) [0, 1, 2, 3]
                then Inl OutOfBounds
                else primal_loop wmap rest
                       (lb[fw_map ! 0 := Finite 0, fw_map ! 3 := Finite 0,
                           fw_map ! 1 := Finite 0, fw_map ! 2 := Finite 0])
                       (ub[fw_map ! 0 := Finite 0, fw_map ! 3 := Finite 0])
         else primal_loop wmap rest lb ub)"

text \<open>
  The outputs are \<open>lb\<close>, \<open>ub\<close> and \<open>C\<close>; the parameters \<open>A\<close>, \<open>a\<close>, \<open>B\<close>, \<open>b\<close> are never
  touched and are left out. In the \<^verbatim>\<open>GRAPH_CUT\<close> case both vectors are resized to the
  dimension and filled, so every entry is \<^verbatim>\<open>-INFTY\<close>, respectively \<^verbatim>\<open>INFTY\<close>, before the
  loop.
\<close>

definition init_primal_opt ::
  "'g model \<Rightarrow> real \<Rightarrow> bound list \<Rightarrow> bound list \<Rightarrow> error + (bound list \<times> bound list \<times> real list list)" where
  "init_primal_opt m regularization lb ub =
     (let C = create_identity_matrix (get_dim m) regularization;
          dim_w = get_dim m
      in case m_inf_type m of
           GRAPH_CUT \<Rightarrow>
             (case primal_loop (m_w_map m) (m_factor_types m)
                     (replicate dim_w MinusInfty) (replicate dim_w PlusInfty) of
                Inl e \<Rightarrow> Inl e
              | Inr (lb', ub') \<Rightarrow> Inr (lb', ub', C))
         | TREE_MAX_PROD \<Rightarrow> Inr (lb, ub, C)
         | LOOPY_MAX_PROD \<Rightarrow> Inr (lb, ub, C)
         | LP_RELAXATION \<Rightarrow> Inr (lb, ub, C)
         | TRWS_MAX_PROD \<Rightarrow> Inr (lb, ub, C)
         | GEMPLP \<Rightarrow> Inr (lb, ub, C))"

section \<open>CSumOne\<close>

text \<open>
  \<^verbatim>\<open>SGVector::sum\<close> adds the entries from the left, starting at 0. The entries may be of
  any type with 0, addition and division, so nothing is assumed about a division by zero.
\<close>

definition sum_vec :: "'a::{zero,plus} list \<Rightarrow> 'a" where
  "sum_vec v = foldl (+) 0 v"

definition apply_to_feature_vector :: "'a::{zero,plus,inverse} list \<Rightarrow> 'a list" where
  "apply_to_feature_vector vector =
     (let sum = sum_vec vector
      in map (\<lambda>i. vector ! i / sum) [0..<length vector])"

section \<open>Consistency of registry and parameter map\<close>

text \<open>
  The parameter map of a consistent model is the concatenation, in registration order, of
  one block per registered type: \<open>w_dim\<close> copies of its id. Ids are distinct, weight
  dimensions positive and equal to the length of the type's weight vector.
\<close>

definition block :: "factor_type \<Rightarrow> int list" where
  "block ft = replicate (nat (w_dim ft)) (type_id ft)"

definition registry_ok :: "('g, 'z) model_scheme \<Rightarrow> bool" where
  "registry_ok m \<longleftrightarrow>
     distinct (map type_id (m_factor_types m)) \<and>
     list_all (\<lambda>ft. 0 < w_dim ft \<and> int (length (w ft)) = w_dim ft) (m_factor_types m) \<and>
     m_w_map m = concat (map block (m_factor_types m))"

text \<open>A model is in step when moreover the cache holds the registered weights.\<close>

definition model_ok :: "('g, 'z) model_scheme \<Rightarrow> bool" where
  "model_ok m \<longleftrightarrow> registry_ok m \<and> m_w_cache m = concat (map w (m_factor_types m))"

section \<open>The scenarios of the specification\<close>

definition scenario_A :: factor_type where
  "scenario_A = \<lparr> type_id = 1, w_dim = 2, w = [0.5, -0.5], cardinalities = [2], num_assignments = 2 \<rparr>"

definition scenario_B :: factor_type where
  "scenario_B = \<lparr> type_id = 2, w_dim = 3, w = [1, 1, 1], cardinalities = [3], num_assignments = 3 \<rparr>"

definition no_labels :: "int \<Rightarrow> observation" where
  "no_labels i = \<lparr> obs_data = [], loss_weights = [] \<rparr>"

definition model0 :: "unit model" where
  "model0 = init (\<lambda>i. ()) no_labels"

text \<open>The model after the two map loops and the push of \<^verbatim>\<open>add_factor_type\<close>.\<close>

definition extend_registry :: "factor_type \<Rightarrow> 'g model \<Rightarrow> 'g model" where
  "extend_registry ftype m =
     m\<lparr>m_w_map := m_w_map m @ replicate (nat (w_dim ftype)) (type_id ftype),
       m_factor_types := m_factor_types m @ [ftype]\<rparr>"

text \<open>A sequence of registry calls; it stops at the first failing call.\<close>

datatype registry_op = Add factor_type | Del int

fun run_ops :: "registry_op list \<Rightarrow> 'g model \<Rightarrow> error + 'g model" where
  "run_ops [] m = Inr m"
| "run_ops (Add ftype # ops) m =
     (case add_factor_type ftype m of Inl e \<Rightarrow> Inl e | Inr m' \<Rightarrow> run_ops ops m')"
| "run_ops (Del ftype_id # ops) m =
     (case del_factor_type ftype_id m of Inl e \<Rightarrow> Inl e | Inr m' \<Rightarrow> run_ops ops m')"

definition scenario_m1 :: "unit model" where
  "scenario_m1 = model0\<lparr>m_factor_types := [scenario_A], m_w_cache := [0.5, -0.5], m_w_map := [1, 1]\<rparr>"

definition scenario_m2 :: "unit model" where
  "scenario_m2 = model0\<lparr>m_factor_types := [scenario_A, scenario_B],
     m_w_cache := [0.5, -0.5, 1, 1, 1], m_w_map := [1, 1, 2, 2, 2]\<rparr>"

definition scenario_m3 :: "unit model" where
  "scenario_m3 = model0\<lparr>m_factor_types := [scenario_B],
     m_w_cache := [0.5, -0.5, 1, 1, 1], m_w_map := [2, 2, 2]\<rparr>"

definition bad_type :: factor_type where
  "bad_type = \<lparr> type_id = 3, w_dim = 0, w = [], cardinalities = [2], num_assignments = 2 \<rparr>"

section \<open>Notions used to state the properties\<close>

text \<open>The number of positions where two state sequences differ.\<close>

definition hamming_distance :: "int list \<Rightarrow> int list \<Rightarrow> nat" where
  "hamming_distance xs ys = length (filter (\<lambda>i. xs ! i \<noteq> ys ! i) [0..<length xs])"

text \<open>The loss contributed by one position.\<close>

definition mismatch_weight :: "int list \<Rightarrow> int list \<Rightarrow> real list \<Rightarrow> nat \<Rightarrow> real" where
  "mismatch_weight s_pred s_truth lw si = (if s_pred ! si \<noteq> s_truth ! si then lw ! si else 0)"

definition obs_a :: observation where
  "obs_a = \<lparr> obs_data = [0, 1, 1], loss_weights = [1, 1, 1] \<rparr>"

definition obs_b :: observation where
  "obs_b = \<lparr> obs_data = [1, 1, 0], loss_weights = [1, 1, 1] \<rparr>"

definition obs_short :: observation where
  "obs_short = \<lparr> obs_data = [1, 1], loss_weights = [1, 1] \<rparr>"

definition obs_weighted :: observation where
  "obs_weighted = \<lparr> obs_data = [0, 1, 1], loss_weights = [0.5, 2, 0.25] \<rparr>"

text \<open>
  What one factor adds to slot \<open>j\<close> of the joint feature vector: its data values at the
  slots \<open>w_map(type)[index * data_size + di]\<close>, \<open>di < data_size\<close>, where \<open>index\<close> is
  the factor's table index under the label.
\<close>

definition slot_contribution ::
  "(factor_type \<Rightarrow> int list \<Rightarrow> int list \<Rightarrow> int) \<Rightarrow> int list \<Rightarrow> int list \<Rightarrow> factor \<Rightarrow> nat \<Rightarrow> real" where
  "slot_contribution ifua wmap states fac j =
     (\<Sum>di\<leftarrow>[0..<length (fac_data fac)].
        if find_vec wmap (type_id (fac_type fac))
             ! nat (ifua (fac_type fac) states (fac_variables fac) * int (length (fac_data fac)) + int di) = j
        then fac_data fac ! di else 0)"

text \<open>The structural condition the two assertions check for a factor.\<close>

definition slots_match :: "int list \<Rightarrow> factor \<Rightarrow> bool" where
  "slots_match wmap fac \<longleftrightarrow>
     int (length (find_vec wmap (type_id (fac_type fac)))) = w_dim (fac_type fac) \<and>
     int (length (find_vec wmap (type_id (fac_type fac))))
       = int (length (fac_data fac)) * num_assignments (fac_type fac)"

section \<open>An example graph: one binary variable, one factor\<close>

text \<open>
  The factor type of the specification's scenario for the joint feature vector: weight
  dimension 4, two assignments. The factor has the data vector \<open>[1, 1]\<close> and the single
  variable 0. The graph is represented by the energy table of its factor.
\<close>

definition ex_type :: factor_type where
  "ex_type = \<lparr> type_id = 1, w_dim = 4, w = [0, 0, 0, 0], cardinalities = [2], num_assignments = 2 \<rparr>"

definition ex_factor :: factor where
  "ex_factor = \<lparr> fac_type = ex_type, fac_data = [1, 1], fac_variables = [0] \<rparr>"

definition ex_compute_energies :: "factor_type list \<Rightarrow> real list \<Rightarrow> real list" where
  "ex_compute_energies fts g =
     (case fts of [] \<Rightarrow> g
      | ft # _ \<Rightarrow> [w ft ! 0 * 1 + w ft ! 1 * 1, w ft ! 2 * 1 + w ft ! 3 * 1])"

definition ex_loss_augmentation :: "real list \<Rightarrow> observation \<Rightarrow> real list" where
  "ex_loss_augmentation g y_truth =
     map (\<lambda>ei. g ! ei - (if int ei = hd (obs_data y_truth) then 0 else hd (loss_weights y_truth)))
       [0..<length g]"

definition ex_inference :: "EMAPInferType \<Rightarrow> real list \<Rightarrow> real list \<times> observation" where
  "ex_inference t g = (g, \<lparr> obs_data = [if g ! 0 \<le> g ! 1 then 0 else 1], loss_weights = [1] \<rparr>)"

definition ex_ext :: "real list collaborators" where
  "ex_ext =
     \<lparr> get_factors = (\<lambda>g. [ex_factor]),
       index_from_universe_assignment = (\<lambda>ft states vars. states ! nat (hd vars)),
       connect_components = (\<lambda>g. g),
       is_tree_graph = (\<lambda>g. True),
       compute_energies = ex_compute_energies,
       evaluate_energy = (\<lambda>g states. g ! nat (hd states)),
       loss_augmentation = ex_loss_augmentation,
       inference = ex_inference \<rparr>"

definition ex_truth :: observation where
  "ex_truth = \<lparr> obs_data = [0], loss_weights = [1] \<rparr>"

definition ex_other :: observation where
  "ex_other = \<lparr> obs_data = [1], loss_weights = [1] \<rparr>"

definition ex_model :: "real list model" where
  "ex_model =
     \<lparr> m_factor_types = [ex_type], m_w_cache = [0, 0, 0, 0], m_w_map = [1, 1, 1, 1],
       m_inf_type = TREE_MAX_PROD, m_features = (\<lambda>i. [0, 0]), m_labels = (\<lambda>i. ex_truth) \<rparr>"

text \<open>A factor type over exactly two binary variables.\<close>

definition pairwise_binary :: "factor_type \<Rightarrow> bool" where
  "pairwise_binary ft \<longleftrightarrow> cardinalities ft = [2, 2]"

text \<open>
  The scenario for the bounds: a unary type on slots 0..3 and a pairwise binary type of
  weight dimension 4 on slots 4..7, under \<^verbatim>\<open>GRAPH_CUT\<close>; and the same with a pairwise
  type of weight dimension 8.
\<close>

definition gc_pair :: factor_type where
  "gc_pair = \<lparr> type_id = 2, w_dim = 4, w = [0, 1, 1, 0], cardinalities = [2, 2], num_assignments = 4 \<rparr>"

definition gc_edge :: factor_type where
  "gc_edge = \<lparr> type_id = 2, w_dim = 8, w = [0, 0, 0, 0, 0, 0, 0, 0], cardinalities = [2, 2],
               num_assignments = 4 \<rparr>"

definition gc_model :: "unit model" where
  "gc_model =
     \<lparr> m_factor_types = [ex_type, gc_pair], m_w_cache = [0, 0, 0, 0, 0, 1, 1, 0],
       m_w_map = [1, 1, 1, 1, 2, 2, 2, 2], m_inf_type = GRAPH_CUT,
       m_features = (\<lambda>i. ()), m_labels = no_labels \<rparr>"

definition gc_model_edge :: "unit model" where
  "gc_model_edge =
     \<lparr> m_factor_types = [ex_type, gc_edge], m_w_cache = [0, 0, 0, 0, 0, 0, 0, 0, 0, 0, 0, 0],
       m_w_map = [1, 1, 1, 1, 2, 2, 2, 2, 2, 2, 2, 2], m_inf_type = GRAPH_CUT,
       m_features = (\<lambda>i. ()), m_labels = no_labels \<rparr>"

text \<open>
  The example graph with the weights \<open>[0, 0, -1, 0]\<close>: state 0 has energy 0 and state 1
  has energy \<open>-1\<close>; the ground truth is state 0.
\<close>

definition ex_w :: "real list" where
  "ex_w = [0, 0, - 1, 0]"

definition ex_model2 :: "real list model" where
  "ex_model2 =
     \<lparr> m_factor_types = [ex_type\<lparr>w := ex_w\<rparr>], m_w_cache = ex_w, m_w_map = [1, 1, 1, 1],
       m_inf_type = TREE_MAX_PROD, m_features = (\<lambda>i. [0, 0])(0 := [0, - 1]),
       m_labels = (\<lambda>i. ex_truth) \<rparr>"

definition ex_result :: "real \<Rightarrow> result_set" where
  "ex_result sc =
     \<lparr> rs_argmax = ex_other, rs_psi_computed = True, rs_psi_truth = [- 1, - 1, 0, 0],
       rs_psi_pred = [0, 0, - 1, - 1], rs_score = sc, rs_delta = 1 \<rparr>"


section \<open>Properties of the parameter mapping\<close>

lemma find_vec_append:
  "find_vec (xs @ ys) e = find_vec xs e @ map (\<lambda>i. i + length xs) (find_vec ys e)"
proof -
  have a: "[0..<length xs + length ys] = [0..<length xs] @ map (\<lambda>i. i + length xs) [0..<length ys]"
    by (metis add.commute add_0 map_add_upt upt_add_eq_append zero_le)
  have b: "filter (\<lambda>i. (xs @ ys) ! i = e) [0..<length xs] = filter (\<lambda>i. xs ! i = e) [0..<length xs]"
    by (rule filter_cong) (auto simp: nth_append)
  have c: "filter (\<lambda>i. (xs @ ys) ! i = e) (map (\<lambda>i. i + length xs) [0..<length ys])
           = map (\<lambda>i. i + length xs) (filter (\<lambda>i. ys ! i = e) [0..<length ys])"
    by (simp add: filter_map comp_def nth_append)
  show ?thesis
    unfolding find_vec_def by (simp add: a b c del: map_append)
qed

lemma find_vec_notin: "e \<notin> set xs \<Longrightarrow> find_vec xs e = []"
  by (auto simp: find_vec_def filter_empty_conv)

lemma find_vec_replicate: "find_vec (replicate d e) e = [0..<d]"
proof -
  have "filter (\<lambda>i. replicate d e ! i = e) [0..<d] = filter (\<lambda>i. True) [0..<d]"
    by (rule filter_cong) auto
  then show ?thesis by (simp add: find_vec_def)
qed

lemma find_vec_block:
  "e \<notin> set A \<Longrightarrow> e \<notin> set B \<Longrightarrow> find_vec (A @ replicate d e @ B) e = [length A..<length A + d]"
  by (simp add: find_vec_append find_vec_notin find_vec_replicate map_add_upt add.commute)

lemma scatter_loop_fold:
  "\<forall>wi \<in> set wis. wi < length fw_map \<and> wi < length fw \<and> fw_map ! wi < length cache \<Longrightarrow>
   scatter_loop wis fw_map fw cache = Inr (fold (\<lambda>wi c. c[fw_map ! wi := fw ! wi]) wis cache)"
  by (induction wis arbitrary: cache) auto

lemma fold_block_update:
  "d \<le> n \<Longrightarrow> d \<le> length fw \<Longrightarrow> p + d \<le> length c \<Longrightarrow>
   fold (\<lambda>wi c. c[[p..<p + n] ! wi := fw ! wi]) [0..<d] c = take p c @ take d fw @ drop (p + d) c"
proof (induction d)
  case 0
  then show ?case by simp
next
  case (Suc d)
  have "(take p c @ take d fw @ drop (p + d) c)[p + d := fw ! d]
        = take p c @ take (Suc d) fw @ drop (p + Suc d) c"
    using Suc.prems
    by (simp add: list_update_append take_Suc_conv_app_nth upd_conv_take_nth_drop min_def)
  with Suc show ?case by simp
qed

lemma scatter_block:
  assumes "length fw = d" "p + d \<le> length c"
  shows "scatter_loop [0..<d] [p..<p + d] fw c = Inr (take p c @ fw @ drop (p + d) c)"
proof -
  have "scatter_loop [0..<d] [p..<p + d] fw c
        = Inr (fold (\<lambda>wi c. c[[p..<p + d] ! wi := fw ! wi]) [0..<d] c)"
    using assms by (intro scatter_loop_fold) auto
  then show ?thesis using assms by (simp add: fold_block_update)
qed


lemma fold_update_range:
  "a \<le> b \<Longrightarrow> b \<le> length v \<Longrightarrow>
   fold (\<lambda>i v. v[i := f i]) [a..<b] v = take a v @ map f [a..<b] @ drop b v"
proof (induction b)
  case 0
  then show ?case by simp
next
  case (Suc b)
  show ?case
  proof (cases "a = Suc b")
    case True
    then show ?thesis by simp
  next
    case False
    with Suc.prems have ab: "a \<le> b" "b < length v" by auto
    have "(take a v @ map f [a..<b] @ drop b v)[b := f b]
          = take a v @ map f [a..<b] @ f b # drop (Suc b) v"
      using ab by (simp add: list_update_append upd_conv_take_nth_drop min_def)
    with Suc.IH ab show ?thesis by simp
  qed
qed

lemma add_map_rebuilt:
  "fill_tail (length cp) x (copy_prefix cp (resize_vector cp (length cp + d))) = cp @ replicate d x"
proof -
  have r: "resize_vector cp (length cp + d) = cp @ replicate d 0"
    by (simp add: resize_vector_def)
  have c: "copy_prefix cp (cp @ replicate d 0) = cp @ replicate d 0"
    unfolding copy_prefix_def
    by (subst fold_update_range) (simp_all add: map_nth)
  have "fill_tail (length cp) x (cp @ replicate d 0) = cp @ map (\<lambda>i. x) [length cp..<length cp + d]"
    unfolding fill_tail_def
    by (subst fold_update_range) simp_all
  also have "map (\<lambda>i. x) [length cp..<length cp + d] = replicate d x"
    by (simp add: map_replicate_const)
  finally show ?thesis by (simp add: r c)
qed

lemma del_copy_filter:
  "ind + length (filter (\<lambda>x. x \<noteq> e) xs) \<le> length v \<Longrightarrow>
   del_copy e xs ind v =
     Inr (ind + length (filter (\<lambda>x. x \<noteq> e) xs),
          take ind v @ filter (\<lambda>x. x \<noteq> e) xs @ drop (ind + length (filter (\<lambda>x. x \<noteq> e) xs)) v)"
proof (induction xs arbitrary: ind v)
  case Nil
  then show ?case by simp
next
  case (Cons x xs)
  show ?case
  proof (cases "x = e")
    case True
    with Cons show ?thesis by simp
  next
    case False
    with Cons.prems have lt: "ind < length v" by simp
    have "del_copy e (x # xs) ind v = del_copy e xs (Suc ind) (v[ind := x])"
      using False lt by simp
    also have "\<dots> = Inr (Suc ind + length (filter (\<lambda>x. x \<noteq> e) xs),
          take (Suc ind) (v[ind := x]) @ filter (\<lambda>x. x \<noteq> e) xs
            @ drop (Suc ind + length (filter (\<lambda>x. x \<noteq> e) xs)) (v[ind := x]))"
      using Cons.prems False by (intro Cons.IH) simp
    finally show ?thesis using False lt
      by (simp add: take_Suc_conv_app_nth)
  qed
qed

lemma del_scan_split:
  "e \<notin> type_id ` set pre \<Longrightarrow> type_id ft = e \<Longrightarrow>
   del_scan e (pre @ ft # suf) = (w_dim ft, pre @ suf)"
  by (induction pre) auto

lemma del_scan_absent:
  "e \<notin> type_id ` set fts \<Longrightarrow> del_scan e fts = (0, fts)"
  by (induction fts) auto


lemma length_block: "length (block ft) = nat (w_dim ft)"
  by (simp add: block_def)

lemma set_blocks: "set (concat (map block fts)) \<subseteq> type_id ` set fts"
  by (auto simp: block_def)

lemma length_blocks: 
  "list_all (\<lambda>ft. 0 < w_dim ft \<and> int (length (w ft)) = w_dim ft) fts \<Longrightarrow>
   int (length (concat (map block fts))) = (\<Sum>ft\<leftarrow>fts. w_dim ft)"
  by (induction fts) (auto simp: length_block)

lemma length_weights: 
  "list_all (\<lambda>ft. 0 < w_dim ft \<and> int (length (w ft)) = w_dim ft) fts \<Longrightarrow>
   length (concat (map w fts)) = length (concat (map block fts))"
  by (induction fts) (auto simp: length_block)

lemma find_vec_registry:
  assumes "distinct (map type_id (pre @ ft # suf))"
  shows "find_vec (concat (map block (pre @ ft # suf))) (type_id ft)
         = [length (concat (map block pre))..<length (concat (map block pre)) + nat (w_dim ft)]"
proof -
  have a: "type_id ft \<notin> set (concat (map block pre))"
    using assms set_blocks [of pre] by auto
  have b: "type_id ft \<notin> set (concat (map block suf))"
    using assms set_blocks [of suf] by auto
  have "concat (map block (pre @ ft # suf))
        = concat (map block pre) @ replicate (nat (w_dim ft)) (type_id ft) @ concat (map block suf)"
    by (simp add: block_def)
  then show ?thesis using find_vec_block [OF a b] by simp
qed

lemma fparams_loop_registry:
  assumes "distinct (map type_id (pre @ suf))"
    and "list_all (\<lambda>ft. 0 < w_dim ft \<and> int (length (w ft)) = w_dim ft) suf"
    and "length c = length (concat (map block (pre @ suf)))"
  shows "fparams_loop (concat (map block (pre @ suf))) suf off c
         = Inr (off + (\<Sum>ft\<leftarrow>suf. w_dim ft),
                take (length (concat (map block pre))) c @ concat (map w suf))"
  using assms
proof (induction suf arbitrary: pre c off)
  case Nil
  then show ?case by simp
next
  case (Cons ft rest)
  let ?p = "length (concat (map block pre))"
  let ?d = "nat (w_dim ft)"
  have fv: "find_vec (concat (map block (pre @ ft # rest))) (type_id ft) = [?p..<?p + ?d]"
    using Cons.prems(1) by (rule find_vec_registry)
  have lw: "length (w ft) = ?d" using Cons.prems(2) by auto
  have pd: "?p + ?d \<le> length c" using Cons.prems(3) by (simp add: length_block)
  have sc: "scatter_loop [0..<?d] [?p..<?p + ?d] (w ft) c = Inr (take ?p c @ w ft @ drop (?p + ?d) c)"
    using lw pd by (rule scatter_block)
  let ?c' = "take ?p c @ w ft @ drop (?p + ?d) c"
  have ih: "fparams_loop (concat (map block ((pre @ [ft]) @ rest))) rest (off + w_dim ft) ?c'
        = Inr (off + w_dim ft + (\<Sum>ft\<leftarrow>rest. w_dim ft),
               take (length (concat (map block (pre @ [ft])))) ?c' @ concat (map w rest))"
    using Cons.prems lw pd by (intro Cons.IH) (auto simp: length_block)
  have tk: "take (length (concat (map block (pre @ [ft])))) ?c' = take ?p c @ w ft"
    using lw pd by (simp add: length_block)
  show ?case using fv lw sc ih tk by (simp add: Let_def add.assoc)
qed

lemma fparams_to_w_registry:
  assumes "registry_ok m"
  shows "fparams_to_w m = Inr (concat (map w (m_factor_types m)),
                              m\<lparr>m_w_cache := concat (map w (m_factor_types m))\<rparr>)"
proof -
  let ?fts = "m_factor_types m"
  from assms have d: "distinct (map type_id ([] @ ?fts))"
    and la: "list_all (\<lambda>ft. 0 < w_dim ft \<and> int (length (w ft)) = w_dim ft) ?fts"
    and wm: "m_w_map m = concat (map block ([] @ ?fts))"
    by (simp_all add: registry_ok_def)
  define c0 where "c0 = (if length (m_w_cache m) \<noteq> get_dim m
                    then resize_vector (m_w_cache m) (get_dim m) else m_w_cache m)"
  have l0: "length c0 = length (concat (map block ([] @ ?fts)))"
    using wm by (auto simp: c0_def get_dim_def resize_vector_def)
  have "fparams_loop (concat (map block ([] @ ?fts))) ?fts 0 c0
        = Inr (0 + (\<Sum>ft\<leftarrow>?fts. w_dim ft), take (length (concat (map block []))) c0 @ concat (map w ?fts))"
    using d la l0 by (rule fparams_loop_registry)
  then have fl: "fparams_loop (m_w_map m) ?fts 0 c0 = Inr ((\<Sum>ft\<leftarrow>?fts. w_dim ft), concat (map w ?fts))"
    using wm by simp
  have "(\<Sum>ft\<leftarrow>?fts. w_dim ft) = int (length (concat (map w ?fts)))"
    using length_blocks [OF la] length_weights [OF la] by simp
  with fl show ?thesis
    unfolding fparams_to_w_def c0_def [symmetric] by (simp add: Let_def)
qed

lemma add_factor_type_fresh:
  assumes "0 < w_dim ftype" "type_id ftype \<notin> type_id ` set (m_factor_types m)"
  shows "add_factor_type ftype m =
           (case fparams_to_w (extend_registry ftype m) of
              Inl e \<Rightarrow> Inl e | Inr (cache, m'') \<Rightarrow> Inr m'')"
proof -
  have "\<not> list_ex (\<lambda>ft. type_id ftype = type_id ft) (m_factor_types m)"
    using assms(2) by (auto simp: list_ex_iff)
  then show ?thesis
    using assms(1)
    by (simp add: add_factor_type_def Let_def add_map_rebuilt extend_registry_def)
qed

lemma registry_ok_extend:
  assumes "registry_ok m" "0 < w_dim ftype" "int (length (w ftype)) = w_dim ftype"
    "type_id ftype \<notin> type_id ` set (m_factor_types m)"
  shows "registry_ok (extend_registry ftype m)"
  using assms by (auto simp: registry_ok_def extend_registry_def block_def)

lemma add_factor_type_registry:
  assumes "registry_ok m" "0 < w_dim ftype" "int (length (w ftype)) = w_dim ftype"
    "type_id ftype \<notin> type_id ` set (m_factor_types m)"
  shows "add_factor_type ftype m =
           Inr ((extend_registry ftype m)\<lparr>m_w_cache := concat (map w (m_factor_types m @ [ftype]))\<rparr>)"
proof -
  have ok: "registry_ok (extend_registry ftype m)"
    using assms by (rule registry_ok_extend)
  have "m_factor_types (extend_registry ftype m) = m_factor_types m @ [ftype]"
    by (simp add: extend_registry_def)
  with fparams_to_w_registry [OF ok] add_factor_type_fresh [OF assms(2) assms(4)]
  show ?thesis by simp
qed

lemma registry_ok_cache: "registry_ok (m\<lparr>m_w_cache := c\<rparr>) = registry_ok m"
  by (simp add: registry_ok_def)

lemma filter_blocks:
  "e \<notin> type_id ` set fts \<Longrightarrow> filter (\<lambda>x. x \<noteq> e) (concat (map block fts)) = concat (map block fts)"
  using set_blocks [of fts] by (auto simp: filter_id_conv)

lemma del_factor_type_registry:
  assumes ok: "registry_ok m" and sp: "m_factor_types m = pre @ ft # suf"
  shows "del_factor_type (type_id ft) m =
           Inr (m\<lparr>m_factor_types := pre @ suf,
                  m_w_map := filter (\<lambda>x. x \<noteq> type_id ft) (m_w_map m)\<rparr>)"
    and "filter (\<lambda>x. x \<noteq> type_id ft) (m_w_map m) = concat (map block (pre @ suf))"
    and "int (length (filter (\<lambda>x. x \<noteq> type_id ft) (m_w_map m))) = int (length (m_w_map m)) - w_dim ft"
proof -
  let ?e = "type_id ft"
  from ok sp have dist: "distinct (map type_id (pre @ ft # suf))"
    and pos: "0 < w_dim ft"
    and wm: "m_w_map m = concat (map block pre) @ block ft @ concat (map block suf)"
    by (simp_all add: registry_ok_def)
  have np: "?e \<notin> type_id ` set pre" and ns: "?e \<notin> type_id ` set suf"
    using dist by auto
  have sc: "del_scan ?e (m_factor_types m) = (w_dim ft, pre @ suf)"
    using np by (simp add: sp del_scan_split)
  have fb: "filter (\<lambda>x. x \<noteq> ?e) (block ft) = []"
    by (simp add: block_def)
  show fl: "filter (\<lambda>x. x \<noteq> ?e) (m_w_map m) = concat (map block (pre @ suf))"
    using np ns by (simp add: wm filter_blocks fb)
  show len: "int (length (filter (\<lambda>x. x \<noteq> ?e) (m_w_map m))) = int (length (m_w_map m)) - w_dim ft"
    unfolding fl using pos by (simp add: wm length_block)
  let ?n = "nat (int (length (m_w_map m)) - w_dim ft)"
  have n: "?n = length (filter (\<lambda>x. x \<noteq> ?e) (m_w_map m))"
    using len by simp
  have lv: "length (resize_vector (m_w_map m) ?n) = ?n"
    by (simp add: resize_vector_def)
  have "del_copy ?e (m_w_map m) 0 (resize_vector (m_w_map m) ?n)
        = Inr (0 + length (filter (\<lambda>x. x \<noteq> ?e) (m_w_map m)),
               take 0 (resize_vector (m_w_map m) ?n) @ filter (\<lambda>x. x \<noteq> ?e) (m_w_map m)
                 @ drop (0 + length (filter (\<lambda>x. x \<noteq> ?e) (m_w_map m))) (resize_vector (m_w_map m) ?n))"
    by (rule del_copy_filter) (simp add: lv n [symmetric])
  then have dc: "del_copy ?e (m_w_map m) 0 (resize_vector (m_w_map m) ?n)
        = Inr (?n, filter (\<lambda>x. x \<noteq> ?e) (m_w_map m))"
    using lv n by simp
  have nonneg: "\<not> int (length (m_w_map m)) - w_dim ft < 0"
    using len by linarith
  show "del_factor_type ?e m =
           Inr (m\<lparr>m_factor_types := pre @ suf, m_w_map := filter (\<lambda>x. x \<noteq> ?e) (m_w_map m)\<rparr>)"
    unfolding del_factor_type_def sc using pos nonneg dc n by (simp add: Let_def)
qed

lemma del_factor_type_absent:
  "ftype_id \<notin> type_id ` set (m_factor_types m) \<Longrightarrow> del_factor_type ftype_id m = Inl AssertionFailed"
  by (simp add: del_factor_type_def del_scan_absent)

lemma registry_ok_del:
  fixes m :: "'g model"
  assumes ok: "registry_ok m" and sp: "m_factor_types m = pre @ ft # suf"
  shows "registry_ok (m\<lparr>m_factor_types := pre @ suf,
                  m_w_map := filter (\<lambda>x. x \<noteq> type_id ft) (m_w_map m)\<rparr>)"
  using ok sp del_factor_type_registry(2) [OF ok sp]
  by (auto simp: registry_ok_def)

lemma registry_ok_init: "registry_ok (init f l)"
  by (simp add: registry_ok_def init_def)

lemmas scenario_defs = scenario_m1_def scenario_m2_def scenario_m3_def model0_def init_def
  scenario_A_def scenario_B_def

lemma registry_ok_scenario: "registry_ok model0" "registry_ok scenario_m1" "registry_ok scenario_m2"
  by (simp_all add: registry_ok_def scenario_defs block_def eval_nat_numeral)

lemma scenario_add_A: "add_factor_type scenario_A model0 = Inr scenario_m1"
  using add_factor_type_registry [OF registry_ok_scenario(1), of scenario_A]
  by (simp add: scenario_defs extend_registry_def eval_nat_numeral)

lemma scenario_add_B: "add_factor_type scenario_B scenario_m1 = Inr scenario_m2"
  using add_factor_type_registry [OF registry_ok_scenario(2), of scenario_B]
  by (simp add: scenario_defs extend_registry_def eval_nat_numeral)

lemma scenario_del_A: "del_factor_type 1 scenario_m2 = Inr scenario_m3"
  using del_factor_type_registry(1) [OF registry_ok_scenario(3), of "[]" scenario_A "[scenario_B]"]
  by (simp add: scenario_defs)

text \<open>
  Consistency is an invariant of the registry calls: it holds for the initial model and
  after every sequence of calls that returns, when each added type carries \<open>w_dim\<close>
  weights.
\<close>

lemma registry_ok_add:
  fixes m :: "'g model"
  assumes "registry_ok m" "int (length (w ftype)) = w_dim ftype"
    and "add_factor_type ftype m = Inr m'"
  shows "registry_ok m'"
proof (cases "0 < w_dim ftype")
  case False
  with assms(3) show ?thesis by (simp add: add_factor_type_def)
next
  case True
  show ?thesis
  proof (cases "type_id ftype \<in> type_id ` set (m_factor_types m)")
    case True
    then have "list_ex (\<lambda>ft. type_id ftype = type_id ft) (m_factor_types m)"
      by (auto simp: list_ex_iff)
    with \<open>0 < w_dim ftype\<close> assms(1,3) show ?thesis by (simp add: add_factor_type_def)
  next
    case False
    from add_factor_type_registry [OF assms(1) True assms(2) False] assms(3)
    have "m' = (extend_registry ftype m)\<lparr>m_w_cache := concat (map w (m_factor_types m @ [ftype]))\<rparr>"
      by simp
    with registry_ok_extend [OF assms(1) True assms(2) False] show ?thesis
      by (simp add: registry_ok_cache)
  qed
qed

lemma registry_ok_del_result:
  fixes m :: "'g model"
  assumes "registry_ok m" "del_factor_type ftype_id m = Inr m'"
  shows "registry_ok m'"
proof (cases "ftype_id \<in> type_id ` set (m_factor_types m)")
  case False
  with assms(2) show ?thesis by (simp add: del_factor_type_absent)
next
  case True
  then obtain ft where "ft \<in> set (m_factor_types m)" "type_id ft = ftype_id" by auto
  then obtain pre suf where sp: "m_factor_types m = pre @ ft # suf"
    by (auto simp: in_set_conv_decomp)
  from del_factor_type_registry(1) [OF assms(1) sp] assms(2) \<open>type_id ft = ftype_id\<close>
  have "m' = m\<lparr>m_factor_types := pre @ suf,
                 m_w_map := filter (\<lambda>x. x \<noteq> type_id ft) (m_w_map m)\<rparr>"
    by simp
  with registry_ok_del [OF assms(1) sp] show ?thesis by simp
qed

lemma registry_ok_run_ops:
  fixes m :: "'g model"
  assumes "registry_ok m"
    and "list_all (\<lambda>op. case op of Add ft \<Rightarrow> int (length (w ft)) = w_dim ft | Del i \<Rightarrow> True) ops"
    and "run_ops ops m = Inr m'"
  shows "registry_ok m'"
  using assms
proof (induction ops arbitrary: m)
  case Nil
  then show ?case by simp
next
  case (Cons op ops)
  show ?case
  proof (cases op)
    case (Add ft)
    with Cons.prems obtain m1 where a: "add_factor_type ft m = Inr m1" and r: "run_ops ops m1 = Inr m'"
      by (auto split: sum.splits)
    from Cons.prems(2) Add have "int (length (w ft)) = w_dim ft" by simp
    from registry_ok_add [OF Cons.prems(1) this a] Cons.prems(2) r show ?thesis
      by (intro Cons.IH) simp_all
  next
    case (Del i)
    with Cons.prems obtain m1 where d: "del_factor_type i m = Inr m1" and r: "run_ops ops m1 = Inr m'"
      by (auto split: sum.splits)
    from registry_ok_del_result [OF Cons.prems(1) d] Cons.prems(2) r show ?thesis
      by (intro Cons.IH) simp_all
  qed
qed

lemma registry_ok_weights_length:
  "registry_ok m \<Longrightarrow> length (concat (map w (m_factor_types m))) = length (m_w_map m)"
  by (simp add: registry_ok_def length_weights)

text \<open>
  Claim C5. \<^verbatim>\<open>add_factor_type\<close> fails with a configuration error when the weight
  dimension is not positive; when a type with the same id is registered it returns with
  the model unchanged; otherwise, on a model whose registry and parameter map are
  consistent (\<open>registry_ok\<close>, which holds initially and is kept by every successful add
  and del) and a type whose weight vector has \<open>w_dim\<close> entries, it succeeds, appends the
  type to the registry, appends \<open>w_dim\<close> copies of its id to the parameter map and leaves
  the cache rebuilt: the cache is what \<^verbatim>\<open>fparams_to_w\<close> computes, the concatenation of
  the registered weight vectors, of length \<^verbatim>\<open>get_dim\<close>.
\<close>

theorem add_factor_type_behaviour:
  fixes m :: "'g model"
  shows "(w_dim ftype \<le> 0 \<longrightarrow> add_factor_type ftype m = Inl ConfigurationError) \<and>
     (0 < w_dim ftype \<and> type_id ftype \<in> type_id ` set (m_factor_types m) \<longrightarrow>
        add_factor_type ftype m = Inr m) \<and>
     (0 < w_dim ftype \<and> type_id ftype \<notin> type_id ` set (m_factor_types m) \<and>
      registry_ok m \<and> int (length (w ftype)) = w_dim ftype \<longrightarrow>
        (\<exists>m'. add_factor_type ftype m = Inr m' \<and>
           m_factor_types m' = m_factor_types m @ [ftype] \<and>
           m_w_map m' = m_w_map m @ replicate (nat (w_dim ftype)) (type_id ftype) \<and>
           fparams_to_w m' = Inr (m_w_cache m', m') \<and>
           m_w_cache m' = concat (map w (m_factor_types m')) \<and>
           length (m_w_cache m') = get_dim m' \<and>
           registry_ok m'))"
proof (intro conjI impI)
  assume "w_dim ftype \<le> 0"
  then show "add_factor_type ftype m = Inl ConfigurationError"
    by (simp add: add_factor_type_def)
next
  assume "0 < w_dim ftype \<and> type_id ftype \<in> type_id ` set (m_factor_types m)"
  then have "0 < w_dim ftype" "list_ex (\<lambda>ft. type_id ftype = type_id ft) (m_factor_types m)"
    by (auto simp: list_ex_iff)
  then show "add_factor_type ftype m = Inr m"
    by (simp add: add_factor_type_def)
next
  assume a: "0 < w_dim ftype \<and> type_id ftype \<notin> type_id ` set (m_factor_types m) \<and>
      registry_ok m \<and> int (length (w ftype)) = w_dim ftype"
  let ?c = "concat (map w (m_factor_types m @ [ftype]))"
  let ?m' = "(extend_registry ftype m)\<lparr>m_w_cache := ?c\<rparr>"
  have ok: "registry_ok (extend_registry ftype m)"
    using a by (intro registry_ok_extend) simp_all
  then have ok': "registry_ok ?m'" by (simp add: registry_ok_cache)
  have add: "add_factor_type ftype m = Inr ?m'"
    using a by (intro add_factor_type_registry) simp_all
  have ft: "m_factor_types ?m' = m_factor_types m @ [ftype]"
    and wm: "m_w_map ?m' = m_w_map m @ replicate (nat (w_dim ftype)) (type_id ftype)"
    and wc: "m_w_cache ?m' = ?c"
    by (simp_all add: extend_registry_def)
  have again: "fparams_to_w ?m' = Inr (m_w_cache ?m', ?m')"
    using fparams_to_w_registry [OF ok'] by (simp add: extend_registry_def)
  have len: "length (m_w_cache ?m') = get_dim ?m'"
    using registry_ok_weights_length [OF ok] by (simp add: get_dim_def extend_registry_def)
  show "\<exists>m'. add_factor_type ftype m = Inr m' \<and>
           m_factor_types m' = m_factor_types m @ [ftype] \<and>
           m_w_map m' = m_w_map m @ replicate (nat (w_dim ftype)) (type_id ftype) \<and>
           fparams_to_w m' = Inr (m_w_cache m', m') \<and>
           m_w_cache m' = concat (map w (m_factor_types m')) \<and>
           length (m_w_cache m') = get_dim m' \<and>
           registry_ok m'"
    using add ft wm again len ok' wc by (intro exI [of _ ?m']) (simp only: simp_thms)
qed

theorem add_factor_type_behaviour_witness:
  "add_factor_type bad_type model0 = Inl ConfigurationError \<and>
   add_factor_type scenario_A scenario_m1 = Inr scenario_m1 \<and>
   (\<exists>m'. add_factor_type scenario_B scenario_m1 = Inr m' \<and>
      m_factor_types m' = [scenario_A, scenario_B] \<and> m_w_map m' = [1, 1, 2, 2, 2] \<and>
      m_w_cache m' = [0.5, -0.5, 1, 1, 1] \<and> length (m_w_cache m') = get_dim m')"
proof -
  have 1: "w_dim bad_type \<le> 0" by (simp add: bad_type_def)
  have 2: "0 < w_dim scenario_A \<and> type_id scenario_A \<in> type_id ` set (m_factor_types scenario_m1)"
    by (simp add: scenario_defs)
  have 3: "0 < w_dim scenario_B \<and> type_id scenario_B \<notin> type_id ` set (m_factor_types scenario_m1) \<and>
      registry_ok scenario_m1 \<and> int (length (w scenario_B)) = w_dim scenario_B"
    using registry_ok_scenario(2) by (simp add: scenario_defs)
  from add_factor_type_behaviour [of bad_type model0] 1
  have c1: "add_factor_type bad_type model0 = Inl ConfigurationError" by blast
  from add_factor_type_behaviour [of scenario_A scenario_m1] 2
  have c2: "add_factor_type scenario_A scenario_m1 = Inr scenario_m1" by blast
  from add_factor_type_behaviour [of scenario_B scenario_m1] 3
  obtain m' where m': "add_factor_type scenario_B scenario_m1 = Inr m'"
    "m_factor_types m' = m_factor_types scenario_m1 @ [scenario_B]"
    "m_w_map m' = m_w_map scenario_m1 @ replicate (nat (w_dim scenario_B)) (type_id scenario_B)"
    "m_w_cache m' = concat (map w (m_factor_types m'))"
    "length (m_w_cache m') = get_dim m'"
    by blast
  have "m_factor_types m' = [scenario_A, scenario_B]" "m_w_map m' = [1, 1, 2, 2, 2]"
    "m_w_cache m' = [0.5, -0.5, 1, 1, 1]"
    using m'(2,3,4) by (simp_all add: scenario_defs eval_nat_numeral)
  with c1 c2 m'(1,5) show ?thesis by blast
qed

section \<open>Round trip between the cache and the factor types\<close>

lemma gather_block:
  "p + d \<le> length cache \<Longrightarrow> gather d [p..<p + d] cache = Inr (take d (drop p cache))"
  by (auto simp: gather_def intro!: nth_equalityI)

lemma w_loop_registry:
  assumes "distinct (map type_id (pre @ suf))"
    and "list_all (\<lambda>ft. 0 < w_dim ft \<and> int (length (w ft)) = w_dim ft) suf"
    and "length cache = length (concat (map block (pre @ suf)))"
  shows "\<exists>ts. w_loop (concat (map block (pre @ suf))) cache suf off
                 = Inr (off + (\<Sum>ft\<leftarrow>suf. w_dim ft), ts) \<and>
              map type_id ts = map type_id suf \<and> map w_dim ts = map w_dim suf \<and>
              map cardinalities ts = map cardinalities suf \<and>
              map num_assignments ts = map num_assignments suf \<and>
              concat (map w ts) = drop (length (concat (map block pre))) cache \<and>
              list_all (\<lambda>ft. 0 < w_dim ft \<and> int (length (w ft)) = w_dim ft) ts"
  using assms
proof (induction suf arbitrary: pre off)
  case Nil
  then show ?case by simp
next
  case (Cons ft rest)
  let ?p = "length (concat (map block pre))"
  let ?d = "nat (w_dim ft)"
  have fv: "find_vec (concat (map block (pre @ ft # rest))) (type_id ft) = [?p..<?p + ?d]"
    using Cons.prems(1) by (rule find_vec_registry)
  have pd: "?p + ?d \<le> length cache" using Cons.prems(3) by (simp add: length_block)
  have ga: "gather ?d [?p..<?p + ?d] cache = Inr (take ?d (drop ?p cache))"
    using pd by (rule gather_block)
  have "\<exists>ts. w_loop (concat (map block ((pre @ [ft]) @ rest))) cache rest (off + w_dim ft)
                 = Inr (off + w_dim ft + (\<Sum>ft\<leftarrow>rest. w_dim ft), ts) \<and>
              map type_id ts = map type_id rest \<and> map w_dim ts = map w_dim rest \<and>
              map cardinalities ts = map cardinalities rest \<and>
              map num_assignments ts = map num_assignments rest \<and>
              concat (map w ts) = drop (length (concat (map block (pre @ [ft])))) cache \<and>
              list_all (\<lambda>ft. 0 < w_dim ft \<and> int (length (w ft)) = w_dim ft) ts"
    using Cons.prems by (intro Cons.IH) auto
  then obtain ts where ts:
    "w_loop (concat (map block (pre @ ft # rest))) cache rest (off + w_dim ft)
       = Inr (off + w_dim ft + (\<Sum>ft\<leftarrow>rest. w_dim ft), ts)"
    "map type_id ts = map type_id rest" "map w_dim ts = map w_dim rest"
    "map cardinalities ts = map cardinalities rest"
    "map num_assignments ts = map num_assignments rest"
    "concat (map w ts) = drop (?p + ?d) cache"
    "list_all (\<lambda>ft. 0 < w_dim ft \<and> int (length (w ft)) = w_dim ft) ts"
    by (auto simp: length_block)
  let ?ts = "ft\<lparr>w := take ?d (drop ?p cache)\<rparr> # ts"
  have "take ?d (drop ?p cache) @ drop (?p + ?d) cache = drop ?p cache"
    by (metis add.commute append_take_drop_id drop_drop)
  moreover have "int (length (take ?d (drop ?p cache))) = w_dim ft"
    using pd Cons.prems(2) by simp
  ultimately show ?case
    using fv ga ts Cons.prems(2)
    by (intro exI [of _ ?ts]) (simp add: add.assoc)
qed

lemma blocks_cong:
  "map type_id ts = map type_id fts \<Longrightarrow> map w_dim ts = map w_dim fts \<Longrightarrow>
   concat (map block ts) = concat (map block fts)"
proof (induction ts arbitrary: fts)
  case Nil
  then show ?case by simp
next
  case (Cons t ts)
  then obtain f fs where "fts = f # fs" by (cases fts) auto
  with Cons show ?case by (simp add: block_def)
qed

lemma w_to_fparams_consistent:
  fixes m :: "'g model"
  assumes ok: "model_ok m" and len: "length wv = get_dim m"
  shows "\<exists>m'. w_to_fparams wv m = Inr m' \<and> model_ok m' \<and> m_w_cache m' = wv \<and>
               m_w_map m' = m_w_map m \<and>
               map type_id (m_factor_types m') = map type_id (m_factor_types m) \<and>
               map w_dim (m_factor_types m') = map w_dim (m_factor_types m) \<and>
               m_features m' = m_features m \<and> m_labels m' = m_labels m \<and>
               m_inf_type m' = m_inf_type m"
proof (cases "m_w_cache m = wv")
  case True
  then show ?thesis using ok by (simp add: w_to_fparams_def)
next
  case False
  let ?fts = "m_factor_types m"
  from ok have d: "distinct (map type_id ([] @ ?fts))"
    and la: "list_all (\<lambda>ft. 0 < w_dim ft \<and> int (length (w ft)) = w_dim ft) ?fts"
    and wm: "m_w_map m = concat (map block ([] @ ?fts))"
    and wc: "m_w_cache m = concat (map w ?fts)"
    by (simp_all add: model_ok_def registry_ok_def)
  have lc: "length wv = length (concat (map block ([] @ ?fts)))"
    using len wm by (simp add: get_dim_def)
  from w_loop_registry [OF d la lc, of 0]
  obtain ts where ts:
    "w_loop (m_w_map m) wv ?fts 0 = Inr ((\<Sum>ft\<leftarrow>?fts. w_dim ft), ts)"
    "map type_id ts = map type_id ?fts" "map w_dim ts = map w_dim ?fts"
    "concat (map w ts) = wv"
    "list_all (\<lambda>ft. 0 < w_dim ft \<and> int (length (w ft)) = w_dim ft) ts"
    using wm by auto
  have sum: "(\<Sum>ft\<leftarrow>?fts. w_dim ft) = int (length wv)"
    using length_blocks [OF la] lc by simp
  have lcache: "length wv = length (m_w_cache m)"
    using wc length_weights [OF la] lc by simp
  let ?m' = "m\<lparr>m_w_cache := wv, m_factor_types := ts\<rparr>"
  have res: "w_to_fparams wv m = Inr ?m'"
    using False lcache ts(1) sum by (simp add: w_to_fparams_def)
  have "distinct (map type_id ts)" using d ts(2) by simp
  moreover have "m_w_map m = concat (map block ts)"
    using wm blocks_cong [OF ts(2) ts(3)] by simp
  ultimately have "model_ok ?m'"
    using ts(4,5) by (simp add: model_ok_def registry_ok_def)
  with res ts(2,3) show ?thesis by (intro exI [of _ ?m']) simp
qed

lemma round_trip_consistent:
  fixes m :: "'g model"
  assumes ok: "model_ok m" and len: "length wv = get_dim m"
  shows "\<exists>m'. w_to_fparams wv m = Inr m' \<and> fparams_to_w m' = Inr (wv, m')"
proof -
  from w_to_fparams_consistent [OF ok len]
  obtain m' where m': "w_to_fparams wv m = Inr m'" "model_ok m'" "m_w_cache m' = wv"
    by blast
  have "registry_ok m'" and c: "concat (map w (m_factor_types m')) = wv"
    using m'(2,3) by (simp_all add: model_ok_def)
  from fparams_to_w_registry [OF this(1)] have "fparams_to_w m' = Inr (wv, m'\<lparr>m_w_cache := wv\<rparr>)"
    by (simp add: c)
  moreover have "m'\<lparr>m_w_cache := wv\<rparr> = m'" using m'(3) by simp
  ultimately show ?thesis using m'(1) by auto
qed

lemma fparams_then_w_to_fparams:
  "fparams_to_w m = Inr (c, m') \<Longrightarrow> w_to_fparams c m' = Inr m' \<and> m_w_cache m' = c"
  by (auto simp: fparams_to_w_def w_to_fparams_def Let_def split: sum.splits prod.splits if_splits)

lemma model_ok_add:
  fixes m :: "'g model"
  assumes "registry_ok m" "0 < w_dim ftype" "int (length (w ftype)) = w_dim ftype"
    "type_id ftype \<notin> type_id ` set (m_factor_types m)"
  shows "\<exists>m'. add_factor_type ftype m = Inr m' \<and> model_ok m'"
  using add_factor_type_registry [OF assms] registry_ok_extend [OF assms]
  by (simp add: model_ok_def registry_ok_def extend_registry_def)

section \<open>Registry operations\<close>

text \<open>
  Claim C6. \<^verbatim>\<open>del_factor_type\<close> fails with an assertion when no registered type has the
  id. On a consistent model it removes the first registered type with that id, keeps the
  other types in order, and the new parameter map is the old one without the slots of
  that id, the other slots in their order; its length is the old length minus the
  removed type's \<open>w_dim\<close>. The scenario of the specification gives the maps
  \<open>[1,1]\<close>, \<open>[1,1,2,2,2]\<close>, \<open>[2,2,2]\<close> and the dimensions 2, 5, 3.
\<close>

theorem del_factor_type_behaviour:
  fixes m :: "'g model"
  shows "(ftype_id \<notin> type_id ` set (m_factor_types m) \<longrightarrow>
            del_factor_type ftype_id m = Inl AssertionFailed) \<and>
     (registry_ok m \<and> m_factor_types m = pre @ ft # suf \<and> type_id ft = ftype_id \<and>
      ftype_id \<notin> type_id ` set pre \<longrightarrow>
        (\<exists>m'. del_factor_type ftype_id m = Inr m' \<and>
           m_factor_types m' = pre @ suf \<and>
           m_w_map m' = filter (\<lambda>x. x \<noteq> ftype_id) (m_w_map m) \<and>
           int (get_dim m') = int (get_dim m) - w_dim ft \<and>
           registry_ok m')) \<and>
     (\<exists>m1 m2 m3.
        add_factor_type scenario_A model0 = Inr m1 \<and> m_w_map m1 = [1, 1] \<and> get_dim m1 = 2 \<and>
        add_factor_type scenario_B m1 = Inr m2 \<and> m_w_map m2 = [1, 1, 2, 2, 2] \<and> get_dim m2 = 5 \<and>
        del_factor_type 1 m2 = Inr m3 \<and> m_w_map m3 = [2, 2, 2] \<and> get_dim m3 = 3)"
proof (intro conjI impI)
  assume "ftype_id \<notin> type_id ` set (m_factor_types m)"
  then show "del_factor_type ftype_id m = Inl AssertionFailed"
    by (rule del_factor_type_absent)
next
  assume a: "registry_ok m \<and> m_factor_types m = pre @ ft # suf \<and> type_id ft = ftype_id \<and>
      ftype_id \<notin> type_id ` set pre"
  then have ok: "registry_ok m" and sp: "m_factor_types m = pre @ ft # suf"
    and id: "type_id ft = ftype_id" by simp_all
  let ?m' = "m\<lparr>m_factor_types := pre @ suf,
                m_w_map := filter (\<lambda>x. x \<noteq> type_id ft) (m_w_map m)\<rparr>"
  have "del_factor_type (type_id ft) m = Inr ?m'"
    using ok sp by (rule del_factor_type_registry(1))
  moreover have "int (get_dim ?m') = int (get_dim m) - w_dim ft"
    using del_factor_type_registry(3) [OF ok sp] by (simp add: get_dim_def)
  moreover have "registry_ok ?m'"
    using ok sp by (rule registry_ok_del)
  ultimately show "\<exists>m'. del_factor_type ftype_id m = Inr m' \<and>
           m_factor_types m' = pre @ suf \<and>
           m_w_map m' = filter (\<lambda>x. x \<noteq> ftype_id) (m_w_map m) \<and>
           int (get_dim m') = int (get_dim m) - w_dim ft \<and>
           registry_ok m'"
    unfolding id [symmetric] by (intro exI [of _ ?m']) simp
next
  show "\<exists>m1 m2 m3.
        add_factor_type scenario_A model0 = Inr m1 \<and> m_w_map m1 = [1, 1] \<and> get_dim m1 = 2 \<and>
        add_factor_type scenario_B m1 = Inr m2 \<and> m_w_map m2 = [1, 1, 2, 2, 2] \<and> get_dim m2 = 5 \<and>
        del_factor_type 1 m2 = Inr m3 \<and> m_w_map m3 = [2, 2, 2] \<and> get_dim m3 = 3"
    using scenario_add_A scenario_add_B scenario_del_A
    by (intro exI [of _ scenario_m1] exI [of _ scenario_m2] exI [of _ scenario_m3])
       (simp add: scenario_m1_def scenario_m2_def scenario_m3_def get_dim_def)
qed

theorem del_factor_type_behaviour_witness:
  "del_factor_type 7 scenario_m2 = Inl AssertionFailed \<and>
   (\<exists>m'. del_factor_type 2 scenario_m2 = Inr m' \<and> m_factor_types m' = [scenario_A] \<and>
      m_w_map m' = [1, 1] \<and> get_dim m' = 2)"
proof -
  have 1: "7 \<notin> type_id ` set (m_factor_types scenario_m2)"
    by (simp add: scenario_defs)
  have 2: "registry_ok scenario_m2 \<and> m_factor_types scenario_m2 = [scenario_A] @ scenario_B # [] \<and>
      type_id scenario_B = 2 \<and> 2 \<notin> type_id ` set [scenario_A]"
    using registry_ok_scenario(3) by (simp add: scenario_defs)
  from del_factor_type_behaviour [of 7 scenario_m2] 1
  have c1: "del_factor_type 7 scenario_m2 = Inl AssertionFailed" by blast
  from del_factor_type_behaviour [of 2 scenario_m2 "[scenario_A]" scenario_B "[]"] 2
  obtain m' where m': "del_factor_type 2 scenario_m2 = Inr m'"
    "m_factor_types m' = [scenario_A] @ []"
    "m_w_map m' = filter (\<lambda>x. x \<noteq> 2) (m_w_map scenario_m2)"
    "int (get_dim m') = int (get_dim scenario_m2) - w_dim scenario_B"
    by blast
  have "m_factor_types m' = [scenario_A]" "m_w_map m' = [1, 1]" "get_dim m' = 2"
    using m'(2,3,4) by (simp_all add: scenario_defs get_dim_def)
  with c1 m'(1) show ?thesis by blast
qed

text \<open>
  Claim C1 fails on the code: \<^verbatim>\<open>del_factor_type\<close> changes the registry and the parameter
  map and does not rebuild the cache, as \<^verbatim>\<open>add_factor_type\<close> does by calling
  \<^verbatim>\<open>fparams_to_w\<close>. After the calls add A, add B, del A of the specification's scenario
  the cache still has 5 entries while the parameter map, and so \<^verbatim>\<open>get_dim\<close>, has 3.
\<close>

theorem cache_stale_after_del:
  "run_ops [Add scenario_A, Add scenario_B, Del 1] model0 = Inr scenario_m3 \<and>
   length (m_w_cache scenario_m3) = 5 \<and> length (m_w_map scenario_m3) = 3 \<and>
   get_dim scenario_m3 = 3"
  by (simp add: scenario_add_A scenario_add_B scenario_del_A)
     (simp add: scenario_m3_def get_dim_def)

text \<open>
  Claim C7 fails on the code in the same state: a vector whose length is \<^verbatim>\<open>get_dim\<close> is
  rejected by the assertion of \<^verbatim>\<open>w_to_fparams\<close> that compares it with the stale cache.
\<close>

theorem w_to_fparams_rejects_after_del:
  "run_ops [Add scenario_A, Add scenario_B, Del 1] model0 = Inr scenario_m3 \<and>
   length [7, 8, 9 :: real] = get_dim scenario_m3 \<and>
   w_to_fparams [7, 8, 9] scenario_m3 = Inl AssertionFailed"
  by (simp add: scenario_add_A scenario_add_B scenario_del_A)
     (simp add: scenario_m3_def get_dim_def w_to_fparams_def)

section \<open>delta_loss\<close>

lemma delta_loop_sum:
  "\<forall>si \<in> set sis. si < length lw \<Longrightarrow>
   delta_loop sis s_pred s_truth lw loss
     = Inr (loss + (\<Sum>si\<leftarrow>sis. mismatch_weight s_pred s_truth lw si))"
  by (induction sis arbitrary: loss) (auto simp: mismatch_weight_def)

lemma delta_loop_same: "delta_loop sis s s lw loss = Inr loss"
  by (induction sis arbitrary: loss) auto

lemma sum_indicator_length:
  "(\<Sum>x\<leftarrow>xs. if P x then (1::real) else 0) = real (length (filter P xs))"
  by (induction xs) auto

lemma hamming_distance_sym:
  "length xs = length ys \<Longrightarrow> hamming_distance xs ys = hamming_distance ys xs"
proof -
  assume "length xs = length ys"
  moreover have "filter (\<lambda>i. xs ! i \<noteq> ys ! i) [0..<length ys] = filter (\<lambda>i. ys ! i \<noteq> xs ! i) [0..<length ys]"
    by (rule filter_cong) auto
  ultimately show ?thesis by (simp add: hamming_distance_def)
qed

lemma delta_loss_weighted:
  assumes "length (obs_data y_pred) = length (obs_data y_truth)"
    and "length (loss_weights y_truth) = length (obs_data y_truth)"
  shows "delta_loss y_truth y_pred =
           Inr (\<Sum>si\<leftarrow>[0..<length (obs_data y_truth)].
                  mismatch_weight (obs_data y_pred) (obs_data y_truth) (loss_weights y_truth) si)"
  using assms by (simp add: delta_loss_def delta_loop_sum Let_def)

lemma delta_loss_unit:
  assumes "length (obs_data y_pred) = length (obs_data y_truth)"
    and "loss_weights y_truth = replicate (length (obs_data y_truth)) 1"
  shows "delta_loss y_truth y_pred =
           Inr (real (hamming_distance (obs_data y_pred) (obs_data y_truth)))"
proof -
  let ?n = "length (obs_data y_truth)"
  have "map (mismatch_weight (obs_data y_pred) (obs_data y_truth) (loss_weights y_truth)) [0..<?n]
        = map (\<lambda>si. if obs_data y_pred ! si \<noteq> obs_data y_truth ! si then 1 else 0) [0..<?n]"
    using assms(2) by (intro map_cong) (auto simp: mismatch_weight_def)
  then have "(\<Sum>si\<leftarrow>[0..<?n]. mismatch_weight (obs_data y_pred) (obs_data y_truth) (loss_weights y_truth) si)
        = (\<Sum>si\<leftarrow>[0..<?n]. if obs_data y_pred ! si \<noteq> obs_data y_truth ! si then 1 else 0)"
    by (simp only:)
  also have "\<dots> = real (hamming_distance (obs_data y_pred) (obs_data y_truth))"
    using assms(1) by (simp only: sum_indicator_length hamming_distance_def)
  finally have "(\<Sum>si\<leftarrow>[0..<?n]. mismatch_weight (obs_data y_pred) (obs_data y_truth) (loss_weights y_truth) si)
        = real (hamming_distance (obs_data y_pred) (obs_data y_truth))" .
  moreover have "length (loss_weights y_truth) = ?n" using assms(2) by simp
  ultimately show ?thesis using delta_loss_weighted [OF assms(1)] by simp
qed

text \<open>
  Claim C9. \<^verbatim>\<open>delta_loss\<close> fails with an assertion when the two state sequences differ
  in length. Otherwise, for a ground truth that carries one loss weight per position, it
  returns the sum, over the positions where the predicted state differs from the true
  one, of the truth's loss weight. It takes and returns no state. So
  \<open>delta_loss y y\<close> is 0, and when all loss weights are 1 the result is the Hamming
  distance of the two sequences and the same in either order of the arguments.
\<close>

theorem delta_loss_behaviour:
  "(length (obs_data y_pred) \<noteq> length (obs_data y_truth) \<longrightarrow>
      delta_loss y_truth y_pred = Inl AssertionFailed) \<and>
   (length (obs_data y_pred) = length (obs_data y_truth) \<and>
    length (loss_weights y_truth) = length (obs_data y_truth) \<longrightarrow>
      delta_loss y_truth y_pred =
        Inr (\<Sum>si\<leftarrow>[0..<length (obs_data y_truth)].
               if obs_data y_pred ! si \<noteq> obs_data y_truth ! si then loss_weights y_truth ! si else 0)) \<and>
   delta_loss y y = Inr 0 \<and>
   (length (obs_data y_pred) = length (obs_data y_truth) \<and>
    loss_weights y_truth = replicate (length (obs_data y_truth)) 1 \<and>
    loss_weights y_pred = replicate (length (obs_data y_pred)) 1 \<longrightarrow>
      delta_loss y_truth y_pred = Inr (real (hamming_distance (obs_data y_truth) (obs_data y_pred))) \<and>
      delta_loss y_truth y_pred = delta_loss y_pred y_truth)"
proof (intro conjI impI)
  assume "length (obs_data y_pred) \<noteq> length (obs_data y_truth)"
  then show "delta_loss y_truth y_pred = Inl AssertionFailed"
    by (simp add: delta_loss_def)
next
  assume "length (obs_data y_pred) = length (obs_data y_truth) \<and>
    length (loss_weights y_truth) = length (obs_data y_truth)"
  then show "delta_loss y_truth y_pred =
        Inr (\<Sum>si\<leftarrow>[0..<length (obs_data y_truth)].
               if obs_data y_pred ! si \<noteq> obs_data y_truth ! si then loss_weights y_truth ! si else 0)"
    using delta_loss_weighted [of y_pred y_truth] by (simp add: mismatch_weight_def [abs_def])
next
  show "delta_loss y y = Inr 0"
    by (simp add: delta_loss_def delta_loop_same)
next
  assume a: "length (obs_data y_pred) = length (obs_data y_truth) \<and>
    loss_weights y_truth = replicate (length (obs_data y_truth)) 1 \<and>
    loss_weights y_pred = replicate (length (obs_data y_pred)) 1"
  then have 1: "delta_loss y_truth y_pred = Inr (real (hamming_distance (obs_data y_pred) (obs_data y_truth)))"
    by (intro delta_loss_unit) simp_all
  from a have 2: "delta_loss y_pred y_truth = Inr (real (hamming_distance (obs_data y_truth) (obs_data y_pred)))"
    by (intro delta_loss_unit) simp_all
  have 3: "hamming_distance (obs_data y_pred) (obs_data y_truth) = hamming_distance (obs_data y_truth) (obs_data y_pred)"
    using a by (intro hamming_distance_sym) simp
  show "delta_loss y_truth y_pred = Inr (real (hamming_distance (obs_data y_truth) (obs_data y_pred)))"
    using 1 3 by simp
  show "delta_loss y_truth y_pred = delta_loss y_pred y_truth"
    using 1 2 3 by simp
qed

theorem delta_loss_behaviour_witness:
  "delta_loss obs_a obs_short = Inl AssertionFailed \<and>
   delta_loss obs_weighted obs_b = Inr 0.75 \<and>
   delta_loss obs_a obs_b = Inr 2 \<and>
   delta_loss obs_a obs_b = delta_loss obs_b obs_a"
proof -
  have 1: "length (obs_data obs_short) \<noteq> length (obs_data obs_a)"
    by (simp add: obs_a_def obs_short_def)
  have 2: "length (obs_data obs_b) = length (obs_data obs_weighted) \<and>
    length (loss_weights obs_weighted) = length (obs_data obs_weighted)"
    by (simp add: obs_b_def obs_weighted_def)
  have 3: "length (obs_data obs_b) = length (obs_data obs_a) \<and>
    loss_weights obs_a = replicate (length (obs_data obs_a)) 1 \<and>
    loss_weights obs_b = replicate (length (obs_data obs_b)) 1"
    by (simp add: obs_a_def obs_b_def eval_nat_numeral)
  have c1: "delta_loss obs_a obs_short = Inl AssertionFailed"
    using delta_loss_behaviour [of obs_short obs_a] 1 by blast
  have "delta_loss obs_weighted obs_b =
        Inr (\<Sum>si\<leftarrow>[0..<length (obs_data obs_weighted)].
               if obs_data obs_b ! si \<noteq> obs_data obs_weighted ! si then loss_weights obs_weighted ! si else 0)"
    using delta_loss_behaviour [of obs_b obs_weighted] 2 by blast
  then have c2: "delta_loss obs_weighted obs_b = Inr 0.75"
    by (simp add: obs_b_def obs_weighted_def upt_conv_Cons)
  have "delta_loss obs_a obs_b = Inr (real (hamming_distance (obs_data obs_a) (obs_data obs_b)))"
    and c4: "delta_loss obs_a obs_b = delta_loss obs_b obs_a"
    using delta_loss_behaviour [of obs_b obs_a] 3 by blast+
  then have c3: "delta_loss obs_a obs_b = Inr 2"
    by (simp add: hamming_distance_def obs_a_def obs_b_def upt_conv_Cons)
  show ?thesis using c1 c2 c3 c4 by blast
qed

section \<open>CSumOne\<close>

lemma foldl_add_sum_list:
  fixes v :: "'a::monoid_add list"
  shows "foldl (+) a v = a + sum_list v"
  by (induction v arbitrary: a) (simp_all add: add.assoc)

lemma sum_vec_sum_list:
  fixes v :: "'a::monoid_add list"
  shows "sum_vec v = sum_list v"
  by (simp add: sum_vec_def foldl_add_sum_list)

text \<open>
  Claim C10. \<^verbatim>\<open>CSumOne::apply_to_feature_vector\<close> returns a vector of the length of its
  input whose \<open>i\<close>-th entry is the \<open>i\<close>-th input entry divided by the sum of all entries.
  The function has no failing outcome and no check of the sum: for an input that sums to
  zero every entry of the result is the input entry divided by zero. The result is a new
  value; the input, an argument of a function, is as it was.
\<close>

theorem apply_to_feature_vector_behaviour:
  fixes v :: "'a::{monoid_add,inverse} list"
  shows "length (apply_to_feature_vector v) = length v \<and>
     (\<forall>i < length v. apply_to_feature_vector v ! i = v ! i / sum_list v) \<and>
     (sum_list v = 0 \<longrightarrow> apply_to_feature_vector v = map (\<lambda>x. x / 0) v)"
proof -
  have eq: "apply_to_feature_vector v = map (\<lambda>x. x / sum_list v) v"
    by (rule nth_equalityI) (simp_all add: apply_to_feature_vector_def sum_vec_sum_list Let_def)
  then show ?thesis by simp
qed

theorem apply_to_feature_vector_behaviour_witness:
  "length (apply_to_feature_vector [1, 3 :: real]) = 2 \<and>
   apply_to_feature_vector [1, 3 :: real] ! 1 = 3 / 4 \<and>
   sum_list [1, - 1 :: real] = 0 \<and>
   apply_to_feature_vector [1, - 1 :: real] = [1 / 0, - 1 / 0]"
proof -
  have z: "sum_list [1, - 1 :: real] = 0" by simp
  have "length (apply_to_feature_vector [1, 3 :: real]) = length [1, 3 :: real]"
    and "\<forall>i < length [1, 3 :: real]. apply_to_feature_vector [1, 3 :: real] ! i = [1, 3] ! i / sum_list [1, 3]"
    using apply_to_feature_vector_behaviour [of "[1, 3 :: real]"] by blast+
  then have a: "length (apply_to_feature_vector [1, 3 :: real]) = 2"
    and b: "apply_to_feature_vector [1, 3 :: real] ! 1 = 3 / 4"
    by simp_all
  have "apply_to_feature_vector [1, - 1 :: real] = map (\<lambda>x. x / 0) [1, - 1]"
    using apply_to_feature_vector_behaviour [of "[1, - 1 :: real]"] z by blast
  then have c: "apply_to_feature_vector [1, - 1 :: real] = [1 / 0, - 1 / 0]"
    by simp
  show ?thesis using a b z c by blast
qed

section \<open>get_joint_feature_vector\<close>

lemma psi_loop_sum:
  "psi_loop dis w_map ei dat psi = Inr psi' \<Longrightarrow>
   length psi' = length psi \<and>
   (\<forall>j < length psi. psi' ! j = psi ! j +
      (\<Sum>di\<leftarrow>dis. if w_map ! nat (ei * int (length dat) + int di) = j then dat ! di else 0))"
proof (induction dis arbitrary: psi)
  case Nil
  then show ?case by simp
next
  case (Cons di dis)
  let ?k = "nat (ei * int (length dat) + int di)"
  let ?psi1 = "psi[w_map ! ?k := psi ! (w_map ! ?k) + dat ! di]"
  from Cons.prems have ok: "w_map ! ?k < length psi"
    and rec: "psi_loop dis w_map ei dat ?psi1 = Inr psi'"
    by (auto simp: Let_def split: if_splits)
  from Cons.IH [OF rec] have len: "length psi' = length psi"
    and ih: "\<forall>j < length psi. psi' ! j = ?psi1 ! j +
      (\<Sum>di\<leftarrow>dis. if w_map ! nat (ei * int (length dat) + int di) = j then dat ! di else 0)"
    by simp_all
  show ?case
  proof (intro conjI allI impI)
    show "length psi' = length psi" by (rule len)
  next
    fix j assume j: "j < length psi"
    then show "psi' ! j = psi ! j +
      (\<Sum>di\<leftarrow>di # dis. if w_map ! nat (ei * int (length dat) + int di) = j then dat ! di else 0)"
      using ih ok by (cases "w_map ! ?k = j") (simp_all add: nth_list_update)
  qed
qed

lemma factors_loop_sum:
  "factors_loop ifua wmap states facs psi = Inr psi' \<Longrightarrow>
   length psi' = length psi \<and>
   (\<forall>j < length psi. psi' ! j = psi ! j + (\<Sum>fac\<leftarrow>facs. slot_contribution ifua wmap states fac j)) \<and>
   list_all (slots_match wmap) facs"
proof (induction facs arbitrary: psi)
  case Nil
  then show ?case by simp
next
  case (Cons fac facs)
  let ?slots = "find_vec wmap (type_id (fac_type fac))"
  let ?ei = "ifua (fac_type fac) states (fac_variables fac)"
  from Cons.prems have sm: "slots_match wmap fac"
    by (auto simp: Let_def slots_match_def split: if_splits)
  from Cons.prems obtain psi1 where
    p1: "psi_loop [0..<length (fac_data fac)] ?slots ?ei (fac_data fac) psi = Inr psi1"
    and rec: "factors_loop ifua wmap states facs psi1 = Inr psi'"
    by (auto simp: Let_def split: if_splits sum.splits)
  from psi_loop_sum [OF p1] have l1: "length psi1 = length psi"
    and s1: "\<forall>j < length psi. psi1 ! j = psi ! j + slot_contribution ifua wmap states fac j"
    by (simp_all add: slot_contribution_def)
  from Cons.IH [OF rec] have l2: "length psi' = length psi1"
    and s2: "\<forall>j < length psi1. psi' ! j = psi1 ! j + (\<Sum>fac\<leftarrow>facs. slot_contribution ifua wmap states fac j)"
    and la: "list_all (slots_match wmap) facs"
    by simp_all
  show ?case using l1 l2 s1 s2 la sm by simp
qed


lemmas ex_defs = ex_type_def ex_factor_def ex_ext_def ex_truth_def ex_other_def ex_model_def
  ex_compute_energies_def ex_loss_augmentation_def ex_inference_def

lemma ex_find_vec: "find_vec [1, 1, 1, 1] 1 = [0, 1, 2, 3]"
  by (simp add: find_vec_def upt_conv_Cons)

lemma ex_joint_feature_other:
  "get_joint_feature_vector ex_ext m 0 ex_other = Inr [0, 0, - 1, - 1]"
  if "m_w_map m = [1, 1, 1, 1]" for m :: "real list model"
  using that
  by (simp add: get_joint_feature_vector_def get_dim_def ex_defs ex_find_vec scale_def
      upt_conv_Cons Let_def eval_nat_numeral)

lemma ex_joint_feature_truth:
  "get_joint_feature_vector ex_ext m 0 ex_truth = Inr [- 1, - 1, 0, 0]"
  if "m_w_map m = [1, 1, 1, 1]" for m :: "real list model"
  using that
  by (simp add: get_joint_feature_vector_def get_dim_def ex_defs ex_find_vec scale_def
      upt_conv_Cons Let_def eval_nat_numeral)

text \<open>
  Claim C3. \<^verbatim>\<open>get_joint_feature_vector\<close> starts from the zero vector of length
  \<^verbatim>\<open>get_dim\<close> (its result for a graph without factors). When it returns, the result has
  that length and its entry at each slot is the negated sum, over the factors, of the data
  values the factor adds at that slot, and every factor passed the two assertions: the
  number of slots of its type equals the type's \<open>w_dim\<close> and equals
  \<open>data_size * num_assignments\<close>. A first factor that violates this makes the call fail
  with an assertion. In the scenario of the specification the result is \<open>-1\<close> at slots 2
  and 3 and zero elsewhere.
\<close>

theorem get_joint_feature_vector_behaviour:
  fixes m :: "'g model"
  shows "(get_factors ext (m_features m feat_idx) = [] \<longrightarrow>
            get_joint_feature_vector ext m feat_idx y = Inr (replicate (get_dim m) 0)) \<and>
     (get_joint_feature_vector ext m feat_idx y = Inr psi \<longrightarrow>
        length psi = get_dim m \<and>
        (\<forall>j < get_dim m. psi ! j =
           - (\<Sum>fac\<leftarrow>get_factors ext (m_features m feat_idx).
                slot_contribution (index_from_universe_assignment ext) (m_w_map m) (obs_data y) fac j)) \<and>
        list_all (slots_match (m_w_map m)) (get_factors ext (m_features m feat_idx))) \<and>
     (get_factors ext (m_features m feat_idx) = fac # facs \<and> \<not> slots_match (m_w_map m) fac \<longrightarrow>
        get_joint_feature_vector ext m feat_idx y = Inl AssertionFailed) \<and>
     get_joint_feature_vector ex_ext ex_model 0 ex_other = Inr [0, 0, - 1, - 1]"
proof (intro conjI impI)
  assume "get_factors ext (m_features m feat_idx) = []"
  then show "get_joint_feature_vector ext m feat_idx y = Inr (replicate (get_dim m) 0)"
    by (simp add: get_joint_feature_vector_def scale_def)
next
  assume r: "get_joint_feature_vector ext m feat_idx y = Inr psi"
  let ?facs = "get_factors ext (m_features m feat_idx)"
  let ?ifua = "index_from_universe_assignment ext"
  from r obtain psi' where
    fl: "factors_loop ?ifua (m_w_map m) (obs_data y) ?facs (replicate (get_dim m) 0) = Inr psi'"
    and psi: "psi = scale psi' (- 1)"
    by (auto simp: get_joint_feature_vector_def Let_def split: sum.splits)
  from factors_loop_sum [OF fl] have len: "length psi' = get_dim m"
    and val: "\<forall>j < get_dim m. psi' ! j =
        (\<Sum>fac\<leftarrow>?facs. slot_contribution ?ifua (m_w_map m) (obs_data y) fac j)"
    and la: "list_all (slots_match (m_w_map m)) ?facs"
    by simp_all
  show "length psi = get_dim m" using len psi by (simp add: scale_def)
  show "\<forall>j < get_dim m. psi ! j =
           - (\<Sum>fac\<leftarrow>?facs. slot_contribution ?ifua (m_w_map m) (obs_data y) fac j)"
    using len val psi by (simp add: scale_def)
  show "list_all (slots_match (m_w_map m)) ?facs" by (rule la)
next
  assume "get_factors ext (m_features m feat_idx) = fac # facs \<and> \<not> slots_match (m_w_map m) fac"
  then show "get_joint_feature_vector ext m feat_idx y = Inl AssertionFailed"
    by (auto simp: get_joint_feature_vector_def slots_match_def Let_def)
next
  show "get_joint_feature_vector ex_ext ex_model 0 ex_other = Inr [0, 0, - 1, - 1]"
    by (rule ex_joint_feature_other) (simp add: ex_model_def)
qed


theorem get_joint_feature_vector_behaviour_witness:
  "get_joint_feature_vector (ex_ext\<lparr>get_factors := (\<lambda>g. [])\<rparr>) ex_model 0 ex_truth = Inr [0, 0, 0, 0] \<and>
   get_joint_feature_vector ex_ext ex_model 0 ex_truth = Inr [- 1, - 1, 0, 0] \<and>
   length [- 1, - 1, 0, 0 :: real] = get_dim ex_model \<and>
   list_all (slots_match (m_w_map ex_model)) [ex_factor] \<and>
   get_joint_feature_vector ex_ext (ex_model\<lparr>m_w_map := [1, 1]\<rparr>) 0 ex_truth = Inl AssertionFailed"
proof -
  let ?ext0 = "ex_ext\<lparr>get_factors := (\<lambda>g. [])\<rparr>"
  let ?m2 = "ex_model\<lparr>m_w_map := [1, 1]\<rparr>"
  have 1: "get_factors ?ext0 (m_features ex_model 0) = []" by simp
  have 2: "get_joint_feature_vector ex_ext ex_model 0 ex_truth = Inr [- 1, - 1, 0, 0]"
    by (rule ex_joint_feature_truth) (simp add: ex_model_def)
  have 3: "get_factors ex_ext (m_features ?m2 0) = ex_factor # [] \<and> \<not> slots_match (m_w_map ?m2) ex_factor"
    by (simp add: ex_ext_def slots_match_def find_vec_def ex_factor_def ex_type_def upt_conv_Cons)
  have c1: "get_joint_feature_vector ?ext0 ex_model 0 ex_truth = Inr (replicate (get_dim ex_model) 0)"
    using get_joint_feature_vector_behaviour [of ?ext0 ex_model 0 ex_truth] 1 by blast
  have c2: "length [- 1, - 1, 0, 0 :: real] = get_dim ex_model \<and>
      list_all (slots_match (m_w_map ex_model)) (get_factors ex_ext (m_features ex_model 0))"
    using get_joint_feature_vector_behaviour [of ex_ext ex_model 0 ex_truth "[- 1, - 1, 0, 0]"] 2
    by blast
  have c3: "get_joint_feature_vector ex_ext ?m2 0 ex_truth = Inl AssertionFailed"
    using get_joint_feature_vector_behaviour [of ex_ext ?m2 0 ex_truth _ ex_factor "[]"] 3
    by blast
  have "replicate (get_dim ex_model) 0 = [0, 0, 0, 0 :: real]"
    by (simp add: get_dim_def ex_model_def eval_nat_numeral)
  moreover have "get_factors ex_ext (m_features ex_model 0) = [ex_factor]"
    by (simp add: ex_ext_def)
  ultimately show ?thesis using c1 2 c2 c3 by simp
qed

section \<open>init_primal_opt\<close>

lemma card_test:
  "(length cs = 2 \<and> cs ! 0 = 2 \<and> cs ! 1 = (2::int)) \<longleftrightarrow> cs = [2, 2]"
proof
  assume a: "length cs = 2 \<and> cs ! 0 = 2 \<and> cs ! 1 = 2"
  then obtain x y where "cs = [x, y]"
    by (cases cs; cases "tl cs") auto
  with a show "cs = [2, 2]" by simp
qed simp

lemma primal_loop_step:
  "primal_loop wmap (ft # rest) lb ub =
     (if pairwise_binary ft then
        if w_dim ft \<noteq> 4 then Inl ConfigurationError
        else if length (find_vec wmap (type_id ft)) \<noteq> length (w ft) then Inl AssertionFailed
        else if \<not> list_all (\<lambda>k. k < length (find_vec wmap (type_id ft)) \<and>
                                 find_vec wmap (type_id ft) ! k < length lb \<and>
                                 find_vec wmap (type_id ft) ! k < length ub) [0, 1, 2, 3]
        then Inl OutOfBounds
        else primal_loop wmap rest
               (lb[find_vec wmap (type_id ft) ! 0 := Finite 0, find_vec wmap (type_id ft) ! 3 := Finite 0,
                   find_vec wmap (type_id ft) ! 1 := Finite 0, find_vec wmap (type_id ft) ! 2 := Finite 0])
               (ub[find_vec wmap (type_id ft) ! 0 := Finite 0, find_vec wmap (type_id ft) ! 3 := Finite 0])
      else primal_loop wmap rest lb ub)"
  by (simp only: primal_loop.simps Let_def card_test pairwise_binary_def)

lemma primal_loop_other:
  "\<not> pairwise_binary ft \<Longrightarrow> primal_loop wmap (ft # rest) lb ub = primal_loop wmap rest lb ub"
  by (simp only: primal_loop_step if_False)

lemma primal_loop_pairwise:
  assumes "primal_loop wmap (ft # rest) lb ub = Inr r" "pairwise_binary ft"
  shows "w_dim ft = 4" "3 < length (find_vec wmap (type_id ft))"
    "primal_loop wmap rest
       (lb[find_vec wmap (type_id ft) ! 0 := Finite 0, find_vec wmap (type_id ft) ! 3 := Finite 0,
           find_vec wmap (type_id ft) ! 1 := Finite 0, find_vec wmap (type_id ft) ! 2 := Finite 0])
       (ub[find_vec wmap (type_id ft) ! 0 := Finite 0, find_vec wmap (type_id ft) ! 3 := Finite 0]) = Inr r"
proof -
  let ?s = "find_vec wmap (type_id ft)"
  let ?ok = "list_all (\<lambda>k. k < length ?s \<and> ?s ! k < length lb \<and> ?s ! k < length ub) [0, 1, 2, 3]"
  let ?rec = "primal_loop wmap rest
       (lb[?s ! 0 := Finite 0, ?s ! 3 := Finite 0, ?s ! 1 := Finite 0, ?s ! 2 := Finite 0])
       (ub[?s ! 0 := Finite 0, ?s ! 3 := Finite 0])"
  have eq: "primal_loop wmap (ft # rest) lb ub =
     (if w_dim ft \<noteq> 4 then Inl ConfigurationError
      else if length ?s \<noteq> length (w ft) then Inl AssertionFailed
      else if \<not> ?ok then Inl OutOfBounds else ?rec)"
    using assms(2) by (simp only: primal_loop_step if_True)
  show wd: "w_dim ft = 4"
  proof (rule ccontr)
    assume "w_dim ft \<noteq> 4"
    with eq assms(1) show False by (simp only: if_True if_False simp_thms sum.simps)
  qed
  have ls: "length ?s = length (w ft)"
  proof (rule ccontr)
    assume "length ?s \<noteq> length (w ft)"
    with eq wd assms(1) show False by (simp only: if_True if_False simp_thms sum.simps)
  qed
  have ok: ?ok
  proof (rule ccontr)
    assume "\<not> ?ok"
    with eq wd ls assms(1) show False by (simp only: if_True if_False simp_thms sum.simps)
  qed
  then show "3 < length ?s" by simp
  show "?rec = Inr r"
    using eq wd ls ok assms(1) by (simp only: if_True if_False simp_thms)
qed

lemma find_vec_mem: "j \<in> set (find_vec v e) \<longleftrightarrow> j < length v \<and> v ! j = e"
  by (auto simp: find_vec_def)

lemma find_vec_distinct: "distinct (find_vec v e)"
  by (simp add: find_vec_def)

lemma find_vec_disjoint: "a \<noteq> b \<Longrightarrow> j \<in> set (find_vec v a) \<Longrightarrow> j \<notin> set (find_vec v b)"
  by (simp add: find_vec_mem)

lemma nth_mem4:
  "3 < length xs \<Longrightarrow> xs ! 0 \<in> set xs \<and> xs ! 1 \<in> set xs \<and> xs ! 2 \<in> set xs \<and> xs ! 3 \<in> set xs"
  by (intro conjI nth_mem) linarith+

lemma distinct_nth4:
  assumes "distinct xs" "3 < length xs"
  shows "distinct [xs ! 0, xs ! 1, xs ! 2, xs ! 3]"
proof -
  have l: "0 < length xs" "1 < length xs" "2 < length xs"
    using assms(2) by linarith+
  have "xs ! 0 \<noteq> xs ! 1" "xs ! 0 \<noteq> xs ! 2" "xs ! 0 \<noteq> xs ! 3"
    "xs ! 1 \<noteq> xs ! 2" "xs ! 1 \<noteq> xs ! 3" "xs ! 2 \<noteq> xs ! 3"
    using assms l by (simp_all add: nth_eq_iff_index_eq)
  then show ?thesis by simp
qed

lemma bounds_update:
  assumes "distinct [a, b, c, d]" "a < length lb" "b < length lb" "c < length lb" "d < length lb"
    "a < length ub" "d < length ub"
  shows "lb[a := x, d := x, b := x, c := x] ! a = x" "lb[a := x, d := x, b := x, c := x] ! b = x"
    "lb[a := x, d := x, b := x, c := x] ! c = x" "lb[a := x, d := x, b := x, c := x] ! d = x"
    "ub[a := x, d := x] ! a = x" "ub[a := x, d := x] ! d = x"
    "ub[a := x, d := x] ! b = ub ! b" "ub[a := x, d := x] ! c = ub ! c"
  using assms by simp_all

lemma primal_loop_frame:
  "primal_loop wmap fts lb ub = Inr (lb', ub') \<Longrightarrow>
   length lb' = length lb \<and> length ub' = length ub \<and>
   (\<forall>j. (\<forall>ft \<in> set fts. pairwise_binary ft \<longrightarrow> j \<notin> set (find_vec wmap (type_id ft))) \<longrightarrow>
        lb' ! j = lb ! j \<and> ub' ! j = ub ! j)"
proof (induction fts arbitrary: lb ub)
  case Nil
  then show ?case by simp
next
  case (Cons ft fts)
  show ?case
  proof (cases "pairwise_binary ft")
    case False
    have "primal_loop wmap fts lb ub = Inr (lb', ub')"
      using Cons.prems unfolding primal_loop_other [OF False] .
    from Cons.IH [OF this] False show ?thesis by simp
  next
    case True
    let ?s = "find_vec wmap (type_id ft)"
    let ?lb1 = "lb[?s ! 0 := Finite 0, ?s ! 3 := Finite 0, ?s ! 1 := Finite 0, ?s ! 2 := Finite 0]"
    let ?ub1 = "ub[?s ! 0 := Finite 0, ?s ! 3 := Finite 0]"
    note pw = primal_loop_pairwise [OF Cons.prems True]
    have len: "3 < length ?s" by (rule pw(2))
    have rec: "primal_loop wmap fts ?lb1 ?ub1 = Inr (lb', ub')" by (rule pw(3))
    from Cons.IH [OF rec] have l: "length lb' = length lb" "length ub' = length ub"
      and fr: "\<forall>j. (\<forall>ft \<in> set fts. pairwise_binary ft \<longrightarrow> j \<notin> set (find_vec wmap (type_id ft))) \<longrightarrow>
        lb' ! j = ?lb1 ! j \<and> ub' ! j = ?ub1 ! j"
      by simp_all
    have "lb' ! j = lb ! j \<and> ub' ! j = ub ! j"
      if j: "\<forall>f \<in> set (ft # fts). pairwise_binary f \<longrightarrow> j \<notin> set (find_vec wmap (type_id f))" for j
    proof -
      from j True have "j \<notin> set ?s" by simp
      moreover have "?s ! 0 \<in> set ?s" "?s ! 1 \<in> set ?s" "?s ! 2 \<in> set ?s" "?s ! 3 \<in> set ?s"
        using nth_mem4 [OF len] by blast+
      ultimately have "j \<noteq> ?s ! 0" "j \<noteq> ?s ! 1" "j \<noteq> ?s ! 2" "j \<noteq> ?s ! 3"
        by blast+
      then have "?lb1 ! j = lb ! j" "?ub1 ! j = ub ! j" by simp_all
      with fr j show ?thesis by simp
    qed
    with l show ?thesis by blast
  qed
qed

lemma primal_loop_untouched:
  assumes "primal_loop wmap fts lb ub = Inr (lb', ub')"
    and "\<And>g. g \<in> set fts \<Longrightarrow> pairwise_binary g \<Longrightarrow> j \<notin> set (find_vec wmap (type_id g))"
  shows "lb' ! j = lb ! j" "ub' ! j = ub ! j"
  using primal_loop_frame [OF assms(1)] assms(2) by blast+

lemma primal_loop_effect:
  assumes "primal_loop wmap fts lb ub = Inr (lb', ub')"
    and "distinct (map type_id fts)" and "ft \<in> set fts" and "pairwise_binary ft"
    and "length lb = length wmap" and "length ub = length wmap"
  shows "w_dim ft = 4 \<and> 3 < length (find_vec wmap (type_id ft)) \<and>
     lb' ! (find_vec wmap (type_id ft) ! 0) = Finite 0 \<and>
     ub' ! (find_vec wmap (type_id ft) ! 0) = Finite 0 \<and>
     lb' ! (find_vec wmap (type_id ft) ! 3) = Finite 0 \<and>
     ub' ! (find_vec wmap (type_id ft) ! 3) = Finite 0 \<and>
     lb' ! (find_vec wmap (type_id ft) ! 1) = Finite 0 \<and>
     ub' ! (find_vec wmap (type_id ft) ! 1) = ub ! (find_vec wmap (type_id ft) ! 1) \<and>
     lb' ! (find_vec wmap (type_id ft) ! 2) = Finite 0 \<and>
     ub' ! (find_vec wmap (type_id ft) ! 2) = ub ! (find_vec wmap (type_id ft) ! 2)"
  using assms
proof (induction fts arbitrary: lb ub)
  case Nil
  then show ?case by simp
next
  case (Cons f fts)
  define s where "s = find_vec wmap (type_id ft)"
  have goal: "w_dim ft = 4 \<and> 3 < length s \<and>
     lb' ! (s ! 0) = Finite 0 \<and> ub' ! (s ! 0) = Finite 0 \<and>
     lb' ! (s ! 3) = Finite 0 \<and> ub' ! (s ! 3) = Finite 0 \<and>
     lb' ! (s ! 1) = Finite 0 \<and> ub' ! (s ! 1) = ub ! (s ! 1) \<and>
     lb' ! (s ! 2) = Finite 0 \<and> ub' ! (s ! 2) = ub ! (s ! 2)"
  proof (cases "f = ft")
    case True
    define lb1 where "lb1 = lb[s ! 0 := Finite 0, s ! 3 := Finite 0, s ! 1 := Finite 0, s ! 2 := Finite 0]"
    define ub1 where "ub1 = ub[s ! 0 := Finite 0, s ! 3 := Finite 0]"
    have pb: "pairwise_binary f" using True Cons.prems(4) by simp
    note pw = primal_loop_pairwise [OF Cons.prems(1) pb, unfolded True, folded s_def]
    have wd: "w_dim ft = 4" by (rule pw(1))
    have len: "3 < length s" by (rule pw(2))
    have rec: "primal_loop wmap fts lb1 ub1 = Inr (lb', ub')"
      unfolding lb1_def ub1_def by (rule pw(3))
    have mem: "s ! 0 \<in> set s" "s ! 1 \<in> set s" "s ! 2 \<in> set s" "s ! 3 \<in> set s"
      using nth_mem4 [OF len] by blast+
    have nid: "type_id ft \<notin> set (map type_id fts)"
      using Cons.prems(2) True by simp
    have nin: "j \<notin> set (find_vec wmap (type_id g))" if "j \<in> set s" "g \<in> set fts" for j g
    proof -
      have "type_id g \<in> set (map type_id fts)" using that(2) by simp
      with nid have "type_id ft \<noteq> type_id g" by metis
      then show ?thesis using that(1) unfolding s_def by (rule find_vec_disjoint)
    qed
    have bnd: "j < length lb" "j < length ub" if "j \<in> set s" for j
      using that Cons.prems(5,6) unfolding s_def by (simp_all add: find_vec_mem)
    have d4: "distinct [s ! 0, s ! 1, s ! 2, s ! 3]"
      unfolding s_def using find_vec_distinct len [unfolded s_def] by (rule distinct_nth4)
    note upd = bounds_update [OF d4 bnd(1) [OF mem(1)] bnd(1) [OF mem(2)] bnd(1) [OF mem(3)]
        bnd(1) [OF mem(4)] bnd(2) [OF mem(1)] bnd(2) [OF mem(4)], of "Finite 0", folded lb1_def ub1_def]
    have un: "lb' ! j = lb1 ! j" "ub' ! j = ub1 ! j" if "j \<in> set s" for j
      using primal_loop_untouched [OF rec nin [OF that]] by blast+
    have "lb' ! (s ! 0) = Finite 0" using un(1) [OF mem(1)] upd(1) by (rule trans)
    moreover have "ub' ! (s ! 0) = Finite 0" using un(2) [OF mem(1)] upd(5) by (rule trans)
    moreover have "lb' ! (s ! 3) = Finite 0" using un(1) [OF mem(4)] upd(4) by (rule trans)
    moreover have "ub' ! (s ! 3) = Finite 0" using un(2) [OF mem(4)] upd(6) by (rule trans)
    moreover have "lb' ! (s ! 1) = Finite 0" using un(1) [OF mem(2)] upd(2) by (rule trans)
    moreover have "ub' ! (s ! 1) = ub ! (s ! 1)" using un(2) [OF mem(2)] upd(7) by (rule trans)
    moreover have "lb' ! (s ! 2) = Finite 0" using un(1) [OF mem(3)] upd(3) by (rule trans)
    moreover have "ub' ! (s ! 2) = ub ! (s ! 2)" using un(2) [OF mem(3)] upd(8) by (rule trans)
    ultimately show ?thesis using wd len by blast
  next
    case False
    with Cons.prems have in_rest: "ft \<in> set fts" and dist: "distinct (map type_id fts)"
      by simp_all
    have ne_id: "type_id f \<noteq> type_id ft"
    proof -
      have "type_id ft \<in> set (map type_id fts)" using in_rest by simp
      moreover have "type_id f \<notin> set (map type_id fts)" using Cons.prems(2) by simp
      ultimately show ?thesis by metis
    qed
    show ?thesis
    proof (cases "pairwise_binary f")
      case False
      have "primal_loop wmap fts lb ub = Inr (lb', ub')"
        using Cons.prems(1) unfolding primal_loop_other [OF False] .
      from Cons.IH [OF this dist in_rest Cons.prems(4,5,6)] show ?thesis
        unfolding s_def .
    next
      case True
      define t where "t = find_vec wmap (type_id f)"
      define lb1 where "lb1 = lb[t ! 0 := Finite 0, t ! 3 := Finite 0, t ! 1 := Finite 0, t ! 2 := Finite 0]"
      define ub1 where "ub1 = ub[t ! 0 := Finite 0, t ! 3 := Finite 0]"
      note pw = primal_loop_pairwise [OF Cons.prems(1) True, folded t_def]
      have lent: "3 < length t" by (rule pw(2))
      have rec: "primal_loop wmap fts lb1 ub1 = Inr (lb', ub')"
        unfolding lb1_def ub1_def by (rule pw(3))
      have l1: "length lb1 = length wmap" "length ub1 = length wmap"
        using Cons.prems(5,6) by (simp_all add: lb1_def ub1_def)
      have ih: "w_dim ft = 4 \<and> 3 < length s \<and>
         lb' ! (s ! 0) = Finite 0 \<and> ub' ! (s ! 0) = Finite 0 \<and>
         lb' ! (s ! 3) = Finite 0 \<and> ub' ! (s ! 3) = Finite 0 \<and>
         lb' ! (s ! 1) = Finite 0 \<and> ub' ! (s ! 1) = ub1 ! (s ! 1) \<and>
         lb' ! (s ! 2) = Finite 0 \<and> ub' ! (s ! 2) = ub1 ! (s ! 2)"
        unfolding s_def by (rule Cons.IH [OF rec dist in_rest Cons.prems(4) l1])
      then have lens: "3 < length s" by blast
      have mems: "s ! 1 \<in> set s" "s ! 2 \<in> set s"
        using nth_mem4 [OF lens] by blast+
      have memt: "t ! 0 \<in> set t" "t ! 3 \<in> set t"
        using nth_mem4 [OF lent] by blast+
      have dis: "j \<notin> set t" if "j \<in> set s" for j
        using ne_id [symmetric] that unfolding s_def t_def by (rule find_vec_disjoint)
      have "s ! 1 \<noteq> t ! 0" "s ! 1 \<noteq> t ! 3" "s ! 2 \<noteq> t ! 0" "s ! 2 \<noteq> t ! 3"
        using dis [OF mems(1)] dis [OF mems(2)] memt by metis+
      then have "ub1 ! (s ! 1) = ub ! (s ! 1)" "ub1 ! (s ! 2) = ub ! (s ! 2)"
        by (simp_all add: ub1_def)
      with ih show ?thesis by simp
    qed
  qed
  then show ?case unfolding s_def .
qed

lemma primal_loop_rejects:
  "ft \<in> set fts \<Longrightarrow> pairwise_binary ft \<Longrightarrow> w_dim ft \<noteq> 4 \<Longrightarrow>
   \<exists>e. primal_loop wmap fts lb ub = Inl e"
proof (induction fts arbitrary: lb ub)
  case Nil
  then show ?case by simp
next
  case (Cons f fts)
  show ?case
  proof (cases "f = ft")
    case True
    with Cons.prems show ?thesis by (simp add: primal_loop_step del: primal_loop.simps)
  next
    case False
    with Cons.prems have "ft \<in> set fts" by simp
    from Cons.IH [OF this Cons.prems(2,3)] show ?thesis
      by (auto simp: primal_loop_step simp del: primal_loop.simps)
  qed
qed

lemma primal_loop_succeeds:
  assumes "\<forall>ft \<in> set fts. length (find_vec wmap (type_id ft)) = length (w ft) \<and>
             (pairwise_binary ft \<longrightarrow> w_dim ft = 4 \<and> length (w ft) = 4)"
    and "length lb = length wmap" and "length ub = length wmap"
  shows "\<exists>lb' ub'. primal_loop wmap fts lb ub = Inr (lb', ub')"
  using assms
proof (induction fts arbitrary: lb ub)
  case Nil
  then show ?case by simp
next
  case (Cons f fts)
  show ?case
  proof (cases "pairwise_binary f")
    case False
    with Cons show ?thesis by (simp add: primal_loop_step del: primal_loop.simps)
  next
    case True
    let ?t = "find_vec wmap (type_id f)"
    from True Cons.prems(1) have wd: "w_dim f = 4" and lt: "length ?t = length (w f)" "length ?t = 4"
      by simp_all
    have "?t ! k \<in> set ?t" if "k < 4" for k using that lt by (intro nth_mem) linarith
    then have "?t ! k < length wmap" if "k < 4" for k
      using that by (simp add: find_vec_mem)
    from this [of 0] this [of 1] this [of 2] this [of 3]
    have ok: "list_all (\<lambda>k. k < length ?t \<and> ?t ! k < length lb \<and> ?t ! k < length ub) [0, 1, 2, 3]"
      using lt Cons.prems(2,3) by simp
    let ?lb1 = "lb[?t ! 0 := Finite 0, ?t ! 3 := Finite 0, ?t ! 1 := Finite 0, ?t ! 2 := Finite 0]"
    let ?ub1 = "ub[?t ! 0 := Finite 0, ?t ! 3 := Finite 0]"
    have "\<exists>lb' ub'. primal_loop wmap fts ?lb1 ?ub1 = Inr (lb', ub')"
      using Cons.prems by (intro Cons.IH) simp_all
    moreover have "primal_loop wmap (f # fts) lb ub = primal_loop wmap fts ?lb1 ?ub1"
      using True wd lt(1) ok by (simp add: primal_loop_step del: primal_loop.simps)
    ultimately show ?thesis by simp
  qed
qed

lemma registry_slots:
  assumes "registry_ok m" "ft \<in> set (m_factor_types m)"
  shows "length (find_vec (m_w_map m) (type_id ft)) = length (w ft)"
proof -
  from assms(2) obtain pre suf where sp: "m_factor_types m = pre @ ft # suf"
    by (auto simp: in_set_conv_decomp)
  from assms(1) have "distinct (map type_id (pre @ ft # suf))"
    and "m_w_map m = concat (map block (pre @ ft # suf))"
    and "int (length (w ft)) = w_dim ft"
    by (simp_all add: registry_ok_def sp)
  then show ?thesis using find_vec_registry [of pre ft suf] by simp
qed


lemma primal_loop_config_error:
  assumes "\<forall>ft \<in> set fts. length (find_vec wmap (type_id ft)) = length (w ft) \<and>
             int (length (w ft)) = w_dim ft"
    and "length lb = length wmap" and "length ub = length wmap"
    and "\<exists>ft \<in> set fts. pairwise_binary ft \<and> w_dim ft \<noteq> 4"
  shows "primal_loop wmap fts lb ub = Inl ConfigurationError"
  using assms
proof (induction fts arbitrary: lb ub)
  case Nil
  then show ?case by simp
next
  case (Cons f fts)
  show ?case
  proof (cases "pairwise_binary f \<and> w_dim f \<noteq> 4")
    case True
    then show ?thesis by (simp only: primal_loop_step if_True simp_thms)
  next
    case False
    with Cons.prems(4) have bad: "\<exists>ft \<in> set fts. pairwise_binary ft \<and> w_dim ft \<noteq> 4"
      by auto
    have rest: "\<forall>ft \<in> set fts. length (find_vec wmap (type_id ft)) = length (w ft) \<and>
             int (length (w ft)) = w_dim ft"
      using Cons.prems(1) by simp
    show ?thesis
    proof (cases "pairwise_binary f")
      case False
      show ?thesis unfolding primal_loop_other [OF False]
        using rest Cons.prems(2,3) bad by (rule Cons.IH)
    next
      case True
      define t where "t = find_vec wmap (type_id f)"
      define lb1 where "lb1 = lb[t ! 0 := Finite 0, t ! 3 := Finite 0, t ! 1 := Finite 0, t ! 2 := Finite 0]"
      define ub1 where "ub1 = ub[t ! 0 := Finite 0, t ! 3 := Finite 0]"
      from True \<open>\<not> (pairwise_binary f \<and> w_dim f \<noteq> 4)\<close> have wd: "w_dim f = 4" by simp
      from Cons.prems(1) wd have lt: "length t = length (w f)" "length t = 4"
        unfolding t_def by simp_all
      have "3 < length t" using lt(2) by simp
      from nth_mem4 [OF this] have "t ! 0 < length wmap" "t ! 1 < length wmap"
        "t ! 2 < length wmap" "t ! 3 < length wmap"
        unfolding t_def by (simp_all add: find_vec_mem)
      then have ok: "list_all (\<lambda>k. k < length t \<and> t ! k < length lb \<and> t ! k < length ub) [0, 1, 2, 3]"
        using lt(2) Cons.prems(2,3) by simp
      have "primal_loop wmap (f # fts) lb ub = primal_loop wmap fts lb1 ub1"
        using True wd lt(1) ok unfolding lb1_def ub1_def t_def
        by (simp only: primal_loop_step if_True if_False simp_thms)
      moreover have "primal_loop wmap fts lb1 ub1 = Inl ConfigurationError"
        using rest Cons.prems(2,3) bad by (intro Cons.IH) (simp_all add: lb1_def ub1_def)
      ultimately show ?thesis by simp
    qed
  qed
qed

lemma identity_entry:
  "i < n \<Longrightarrow> j < n \<Longrightarrow> create_identity_matrix n r ! i ! j = (if i = j then r else 0)"
  by (simp add: create_identity_matrix_def)

lemma init_primal_opt_graph_cut:
  "m_inf_type m = GRAPH_CUT \<Longrightarrow>
   init_primal_opt m reg lb ub =
     (case primal_loop (m_w_map m) (m_factor_types m)
             (replicate (get_dim m) MinusInfty) (replicate (get_dim m) PlusInfty) of
        Inl e \<Rightarrow> Inl e
      | Inr (lb', ub') \<Rightarrow> Inr (lb', ub', create_identity_matrix (get_dim m) reg))"
  by (simp add: init_primal_opt_def Let_def)

lemma init_primal_opt_other:
  "m_inf_type m \<noteq> GRAPH_CUT \<Longrightarrow>
   init_primal_opt m reg lb ub = Inr (lb, ub, create_identity_matrix (get_dim m) reg)"
  by (cases "m_inf_type m") (simp_all add: init_primal_opt_def Let_def)

lemma init_primal_opt_matrix:
  "init_primal_opt m reg lb ub = Inr (lb', ub', C) \<Longrightarrow> C = create_identity_matrix (get_dim m) reg"
  by (cases "m_inf_type m")
     (auto simp: init_primal_opt_def Let_def split: sum.splits prod.splits)

lemma registry_distinct_ids:
  assumes "registry_ok m" "ft \<in> set (m_factor_types m)" "g \<in> set (m_factor_types m)" "g \<noteq> ft"
  shows "type_id ft \<noteq> type_id g"
proof -
  from assms(1) have "inj_on type_id (set (m_factor_types m))"
    by (simp add: registry_ok_def distinct_map)
  with assms(2,3,4) show ?thesis by (auto dest: inj_onD)
qed

lemma gc_model_ok: "registry_ok gc_model" "registry_ok gc_model_edge"
  by (simp_all add: registry_ok_def gc_model_def gc_model_edge_def ex_type_def gc_pair_def
      gc_edge_def block_def eval_nat_numeral)

lemma gc_model_bounds:
  "init_primal_opt gc_model 1 [] [] =
     Inr ([MinusInfty, MinusInfty, MinusInfty, MinusInfty, Finite 0, Finite 0, Finite 0, Finite 0],
          [PlusInfty, PlusInfty, PlusInfty, PlusInfty, Finite 0, PlusInfty, PlusInfty, Finite 0],
          create_identity_matrix 8 1)"
proof -
  have f1: "find_vec [1, 1, 1, 1, 2, 2, 2, 2] 2 = [4, 5, 6, 7]"
    by (simp add: find_vec_def upt_conv_Cons)
  have d: "get_dim gc_model = 8"
    by (simp add: get_dim_def gc_model_def)
  have g: "m_inf_type gc_model = GRAPH_CUT" "m_w_map gc_model = [1, 1, 1, 1, 2, 2, 2, 2]"
    "m_factor_types gc_model = [ex_type, gc_pair]"
    by (simp_all add: gc_model_def)
  have r: "replicate 8 x = [x, x, x, x, x, x, x, x]" for x :: bound
    by (simp add: eval_nat_numeral)
  have p: "\<not> pairwise_binary ex_type" "pairwise_binary gc_pair" "w_dim gc_pair = 4"
    "type_id gc_pair = 2" "length (w gc_pair) = 4"
    by (simp_all add: pairwise_binary_def ex_type_def gc_pair_def)
  have "primal_loop [1, 1, 1, 1, 2, 2, 2, 2] [ex_type, gc_pair] (replicate 8 MinusInfty) (replicate 8 PlusInfty)
        = Inr ([MinusInfty, MinusInfty, MinusInfty, MinusInfty, Finite 0, Finite 0, Finite 0, Finite 0],
          [PlusInfty, PlusInfty, PlusInfty, PlusInfty, Finite 0, PlusInfty, PlusInfty, Finite 0])"
    by (simp add: primal_loop_step p f1 r del: primal_loop.simps(2))
  then show ?thesis
    by (simp add: init_primal_opt_graph_cut [OF g(1)] d g(2,3))
qed

text \<open>
  Claim C4 fails on the code in its last part: outside \<^verbatim>\<open>GRAPH_CUT\<close> the switch only
  breaks, so \<open>lb\<close> and \<open>ub\<close> come back as the caller passed them. A caller that passes
  bounds fixed at 0 on a model of dimension 2 gets them back, not \<open>-inf\<close> and \<open>+inf\<close>.
\<close>

theorem init_primal_opt_keeps_bounds:
  "m_inf_type scenario_m1 = TREE_MAX_PROD \<and> get_dim scenario_m1 = 2 \<and>
   init_primal_opt scenario_m1 1 [Finite 0, Finite 0] [Finite 0, Finite 0]
     = Inr ([Finite 0, Finite 0], [Finite 0, Finite 0], [[1, 0], [0, 1]])"
  by (simp add: init_primal_opt_def scenario_defs get_dim_def create_identity_matrix_def
      upt_conv_Cons)

text \<open>
  Claim C4, amended. When \<^verbatim>\<open>init_primal_opt\<close> returns, \<open>C\<close> is the identity matrix of
  size \<^verbatim>\<open>get_dim\<close> scaled by the regularization. Under \<^verbatim>\<open>GRAPH_CUT\<close> a registered type
  with cardinalities \<open>[2, 2]\<close> and a weight dimension other than 4 makes the call fail (on
  a consistent model with the configuration error of the \<^verbatim>\<open>REQUIRE\<close>); on a consistent
  model where every such type has weight dimension 4 the call succeeds, \<open>lb\<close> and \<open>ub\<close>
  have length \<^verbatim>\<open>get_dim\<close>, at the slots 0 and 3 of such a type \<open>lb = ub = 0\<close>, at its slots
  1 and 2 \<open>lb = 0\<close> and \<open>ub = +inf\<close>, and at the slots of every other type \<open>lb = -inf\<close> and
  \<open>ub = +inf\<close>. Under every other inference mode \<open>lb\<close> and \<open>ub\<close> are returned as they were
  passed in. In the scenario of the specification the pairwise type sits on slots 4..7.
\<close>

theorem init_primal_opt_behaviour:
  fixes m :: "'g model"
  shows "(init_primal_opt m reg lb ub = Inr (lb', ub', C) \<longrightarrow>
        length C = get_dim m \<and>
        (\<forall>i < get_dim m. length (C ! i) = get_dim m \<and>
           (\<forall>j < get_dim m. C ! i ! j = (if i = j then reg else 0)))) \<and>
     (m_inf_type m = GRAPH_CUT \<and> ft \<in> set (m_factor_types m) \<and>
      cardinalities ft = [2, 2] \<and> w_dim ft \<noteq> 4 \<longrightarrow>
        (\<exists>e. init_primal_opt m reg lb ub = Inl e) \<and>
        (registry_ok m \<longrightarrow> init_primal_opt m reg lb ub = Inl ConfigurationError)) \<and>
     (m_inf_type m = GRAPH_CUT \<and> registry_ok m \<and>
      (\<forall>g \<in> set (m_factor_types m). cardinalities g = [2, 2] \<longrightarrow> w_dim g = 4) \<longrightarrow>
        (\<exists>lb2 ub2 C2. init_primal_opt m reg lb ub = Inr (lb2, ub2, C2))) \<and>
     (m_inf_type m = GRAPH_CUT \<and> registry_ok m \<and>
      init_primal_opt m reg lb ub = Inr (lb', ub', C) \<longrightarrow>
        length lb' = get_dim m \<and> length ub' = get_dim m \<and>
        (\<forall>g \<in> set (m_factor_types m).
           (cardinalities g = [2, 2] \<longrightarrow>
              w_dim g = 4 \<and> length (get_params_mapping m (type_id g)) = 4 \<and>
              lb' ! (get_params_mapping m (type_id g) ! 0) = Finite 0 \<and>
              ub' ! (get_params_mapping m (type_id g) ! 0) = Finite 0 \<and>
              lb' ! (get_params_mapping m (type_id g) ! 3) = Finite 0 \<and>
              ub' ! (get_params_mapping m (type_id g) ! 3) = Finite 0 \<and>
              lb' ! (get_params_mapping m (type_id g) ! 1) = Finite 0 \<and>
              ub' ! (get_params_mapping m (type_id g) ! 1) = PlusInfty \<and>
              lb' ! (get_params_mapping m (type_id g) ! 2) = Finite 0 \<and>
              ub' ! (get_params_mapping m (type_id g) ! 2) = PlusInfty) \<and>
           (cardinalities g \<noteq> [2, 2] \<longrightarrow>
              (\<forall>j \<in> set (get_params_mapping m (type_id g)).
                 lb' ! j = MinusInfty \<and> ub' ! j = PlusInfty)))) \<and>
     (m_inf_type m \<noteq> GRAPH_CUT \<longrightarrow>
        init_primal_opt m reg lb ub = Inr (lb, ub, create_identity_matrix (get_dim m) reg)) \<and>
     init_primal_opt gc_model 1 [] [] =
       Inr ([MinusInfty, MinusInfty, MinusInfty, MinusInfty, Finite 0, Finite 0, Finite 0, Finite 0],
            [PlusInfty, PlusInfty, PlusInfty, PlusInfty, Finite 0, PlusInfty, PlusInfty, Finite 0],
            create_identity_matrix 8 1)"
proof (intro conjI impI)
  assume "init_primal_opt m reg lb ub = Inr (lb', ub', C)"
  then have C: "C = create_identity_matrix (get_dim m) reg" by (rule init_primal_opt_matrix)
  show "length C = get_dim m" by (simp add: C create_identity_matrix_def)
  show "\<forall>i < get_dim m. length (C ! i) = get_dim m \<and>
           (\<forall>j < get_dim m. C ! i ! j = (if i = j then reg else 0))"
    unfolding C by (simp add: identity_entry) (simp add: create_identity_matrix_def)
next
  assume a: "m_inf_type m = GRAPH_CUT \<and> ft \<in> set (m_factor_types m) \<and>
      cardinalities ft = [2, 2] \<and> w_dim ft \<noteq> 4"
  then have "\<exists>e. primal_loop (m_w_map m) (m_factor_types m)
             (replicate (get_dim m) MinusInfty) (replicate (get_dim m) PlusInfty) = Inl e"
    by (intro primal_loop_rejects [of ft]) (simp_all add: pairwise_binary_def)
  then show "\<exists>e. init_primal_opt m reg lb ub = Inl e"
    using a by (auto simp: init_primal_opt_graph_cut)
next
  assume a: "m_inf_type m = GRAPH_CUT \<and> ft \<in> set (m_factor_types m) \<and>
      cardinalities ft = [2, 2] \<and> w_dim ft \<noteq> 4" and ok: "registry_ok m"
  have "\<forall>g \<in> set (m_factor_types m). length (find_vec (m_w_map m) (type_id g)) = length (w g) \<and>
             int (length (w g)) = w_dim g"
    using ok registry_slots [OF ok] by (simp add: registry_ok_def list_all_iff)
  moreover have "\<exists>g \<in> set (m_factor_types m). pairwise_binary g \<and> w_dim g \<noteq> 4"
    using a by (auto simp: pairwise_binary_def)
  ultimately have "primal_loop (m_w_map m) (m_factor_types m)
             (replicate (get_dim m) MinusInfty) (replicate (get_dim m) PlusInfty) = Inl ConfigurationError"
    by (intro primal_loop_config_error) (simp_all add: get_dim_def)
  then show "init_primal_opt m reg lb ub = Inl ConfigurationError"
    using a by (simp add: init_primal_opt_graph_cut)
next
  assume a: "m_inf_type m = GRAPH_CUT \<and> registry_ok m \<and>
      (\<forall>g \<in> set (m_factor_types m). cardinalities g = [2, 2] \<longrightarrow> w_dim g = 4)"
  then have ok: "registry_ok m" by simp
  have "\<forall>g \<in> set (m_factor_types m). length (find_vec (m_w_map m) (type_id g)) = length (w g) \<and>
             (pairwise_binary g \<longrightarrow> w_dim g = 4 \<and> length (w g) = 4)"
  proof
    fix g assume g: "g \<in> set (m_factor_types m)"
    have "int (length (w g)) = w_dim g"
      using ok g by (simp add: registry_ok_def list_all_iff)
    then show "length (find_vec (m_w_map m) (type_id g)) = length (w g) \<and>
             (pairwise_binary g \<longrightarrow> w_dim g = 4 \<and> length (w g) = 4)"
      using registry_slots [OF ok g] a g by (auto simp: pairwise_binary_def)
  qed
  then have "\<exists>lb2 ub2. primal_loop (m_w_map m) (m_factor_types m)
             (replicate (get_dim m) MinusInfty) (replicate (get_dim m) PlusInfty) = Inr (lb2, ub2)"
    by (intro primal_loop_succeeds) (simp_all add: get_dim_def)
  then show "\<exists>lb2 ub2 C2. init_primal_opt m reg lb ub = Inr (lb2, ub2, C2)"
    using a by (auto simp: init_primal_opt_graph_cut)
next
  assume a: "m_inf_type m = GRAPH_CUT \<and> registry_ok m \<and>
      init_primal_opt m reg lb ub = Inr (lb', ub', C)"
  then have ok: "registry_ok m" by simp
  let ?lb0 = "replicate (get_dim m) MinusInfty"
  let ?ub0 = "replicate (get_dim m) PlusInfty"
  from a have pl: "primal_loop (m_w_map m) (m_factor_types m) ?lb0 ?ub0 = Inr (lb', ub')"
    by (auto simp: init_primal_opt_graph_cut split: sum.splits)
  from primal_loop_frame [OF pl]
  show "length lb' = get_dim m" and "length ub' = get_dim m" by simp_all
  have dist: "distinct (map type_id (m_factor_types m))"
    using ok by (simp add: registry_ok_def)
  show "\<forall>g \<in> set (m_factor_types m).
           (cardinalities g = [2, 2] \<longrightarrow>
              w_dim g = 4 \<and> length (get_params_mapping m (type_id g)) = 4 \<and>
              lb' ! (get_params_mapping m (type_id g) ! 0) = Finite 0 \<and>
              ub' ! (get_params_mapping m (type_id g) ! 0) = Finite 0 \<and>
              lb' ! (get_params_mapping m (type_id g) ! 3) = Finite 0 \<and>
              ub' ! (get_params_mapping m (type_id g) ! 3) = Finite 0 \<and>
              lb' ! (get_params_mapping m (type_id g) ! 1) = Finite 0 \<and>
              ub' ! (get_params_mapping m (type_id g) ! 1) = PlusInfty \<and>
              lb' ! (get_params_mapping m (type_id g) ! 2) = Finite 0 \<and>
              ub' ! (get_params_mapping m (type_id g) ! 2) = PlusInfty) \<and>
           (cardinalities g \<noteq> [2, 2] \<longrightarrow>
              (\<forall>j \<in> set (get_params_mapping m (type_id g)).
                 lb' ! j = MinusInfty \<and> ub' ! j = PlusInfty))"
  proof (intro ballI conjI impI)
    fix g j
    assume g: "g \<in> set (m_factor_types m)" and npb: "cardinalities g \<noteq> [2, 2]"
      and j: "j \<in> set (get_params_mapping m (type_id g))"
    have nin: "j \<notin> set (find_vec (m_w_map m) (type_id h))"
      if "h \<in> set (m_factor_types m)" "pairwise_binary h" for h
    proof -
      from that(2) npb have "h \<noteq> g" by (auto simp: pairwise_binary_def)
      from registry_distinct_ids [OF ok g that(1) this]
      show ?thesis using j unfolding get_params_mapping_def by (rule find_vec_disjoint)
    qed
    have jn: "j < get_dim m"
      using j by (simp add: get_params_mapping_def find_vec_mem get_dim_def)
    from primal_loop_untouched [OF pl nin] jn
    show "lb' ! j = MinusInfty" and "ub' ! j = PlusInfty" by simp_all
  next
    fix g
    assume g: "g \<in> set (m_factor_types m)" and pb: "cardinalities g = [2, 2]"
    define s where "s = find_vec (m_w_map m) (type_id g)"
    have pbg: "pairwise_binary g" using pb by (simp add: pairwise_binary_def)
    have eff: "w_dim g = 4 \<and> 3 < length s \<and>
       lb' ! (s ! 0) = Finite 0 \<and> ub' ! (s ! 0) = Finite 0 \<and>
       lb' ! (s ! 3) = Finite 0 \<and> ub' ! (s ! 3) = Finite 0 \<and>
       lb' ! (s ! 1) = Finite 0 \<and> ub' ! (s ! 1) = ?ub0 ! (s ! 1) \<and>
       lb' ! (s ! 2) = Finite 0 \<and> ub' ! (s ! 2) = ?ub0 ! (s ! 2)"
      unfolding s_def by (rule primal_loop_effect [OF pl dist g pbg]) (simp_all add: get_dim_def)
    then have len: "3 < length s" by blast
    from nth_mem4 [OF len] have "s ! 1 < get_dim m" "s ! 2 < get_dim m"
      unfolding s_def by (simp_all add: find_vec_mem get_dim_def)
    then have inf: "?ub0 ! (s ! 1) = PlusInfty" "?ub0 ! (s ! 2) = PlusInfty" by simp_all
    have "int (length (w g)) = w_dim g"
      using ok g by (simp add: registry_ok_def list_all_iff)
    with eff registry_slots [OF ok g] have l4: "length s = 4" unfolding s_def by simp
    have gp: "get_params_mapping m (type_id g) = s"
      by (simp add: get_params_mapping_def s_def)
    show "w_dim g = 4" using eff by blast
    show "length (get_params_mapping m (type_id g)) = 4" unfolding gp by (rule l4)
    show "lb' ! (get_params_mapping m (type_id g) ! 0) = Finite 0" unfolding gp using eff by blast
    show "ub' ! (get_params_mapping m (type_id g) ! 0) = Finite 0" unfolding gp using eff by blast
    show "lb' ! (get_params_mapping m (type_id g) ! 3) = Finite 0" unfolding gp using eff by blast
    show "ub' ! (get_params_mapping m (type_id g) ! 3) = Finite 0" unfolding gp using eff by blast
    show "lb' ! (get_params_mapping m (type_id g) ! 1) = Finite 0" unfolding gp using eff by blast
    show "ub' ! (get_params_mapping m (type_id g) ! 1) = PlusInfty" unfolding gp using eff inf(1) by metis
    show "lb' ! (get_params_mapping m (type_id g) ! 2) = Finite 0" unfolding gp using eff by blast
    show "ub' ! (get_params_mapping m (type_id g) ! 2) = PlusInfty" unfolding gp using eff inf(2) by metis
  qed
next
  assume "m_inf_type m \<noteq> GRAPH_CUT"
  then show "init_primal_opt m reg lb ub = Inr (lb, ub, create_identity_matrix (get_dim m) reg)"
    by (rule init_primal_opt_other)
next
  show "init_primal_opt gc_model 1 [] [] =
       Inr ([MinusInfty, MinusInfty, MinusInfty, MinusInfty, Finite 0, Finite 0, Finite 0, Finite 0],
            [PlusInfty, PlusInfty, PlusInfty, PlusInfty, Finite 0, PlusInfty, PlusInfty, Finite 0],
            create_identity_matrix 8 1)"
    by (rule gc_model_bounds)
qed


theorem init_primal_opt_behaviour_witness:
  "length (create_identity_matrix 8 (1::real)) = get_dim gc_model \<and>
   init_primal_opt gc_model_edge 1 [] [] = Inl ConfigurationError \<and>
   (\<exists>lb2 ub2 C2. init_primal_opt gc_model 1 [] [] = Inr (lb2, ub2, C2)) \<and>
   w_dim gc_pair = 4 \<and> length (get_params_mapping gc_model (type_id gc_pair)) = 4 \<and>
   [MinusInfty, MinusInfty, MinusInfty, MinusInfty, Finite 0, Finite 0, Finite 0, Finite 0]
     ! (get_params_mapping gc_model (type_id ex_type) ! 0) = MinusInfty \<and>
   init_primal_opt scenario_m1 1 [Finite 0, Finite 0] [Finite 0, Finite 0]
     = Inr ([Finite 0, Finite 0], [Finite 0, Finite 0], create_identity_matrix (get_dim scenario_m1) 1)"
proof -
  let ?L = "[MinusInfty, MinusInfty, MinusInfty, MinusInfty, Finite 0, Finite 0, Finite 0, Finite 0]"
  let ?U = "[PlusInfty, PlusInfty, PlusInfty, PlusInfty, Finite 0, PlusInfty, PlusInfty, Finite 0]"
  let ?C = "create_identity_matrix 8 (1::real)"
  have run: "init_primal_opt gc_model 1 [] [] = Inr (?L, ?U, ?C)" by (rule gc_model_bounds)
  have gc: "m_inf_type gc_model = GRAPH_CUT" by (simp add: gc_model_def)
  have h1: "length ?C = get_dim gc_model"
    using init_primal_opt_behaviour [of gc_model 1 "[]" "[]" ?L ?U ?C gc_pair] run by blast
  have e: "m_inf_type gc_model_edge = GRAPH_CUT \<and> gc_edge \<in> set (m_factor_types gc_model_edge) \<and>
      cardinalities gc_edge = [2, 2] \<and> w_dim gc_edge \<noteq> 4"
    by (simp add: gc_model_edge_def gc_edge_def)
  have h2: "init_primal_opt gc_model_edge 1 [] [] = Inl ConfigurationError"
    using init_primal_opt_behaviour [of gc_model_edge 1 "[]" "[]" ?L ?U ?C gc_edge] e gc_model_ok(2)
    by blast
  have all4: "\<forall>g \<in> set (m_factor_types gc_model). cardinalities g = [2, 2] \<longrightarrow> w_dim g = 4"
    by (simp add: gc_model_def ex_type_def gc_pair_def)
  have h3: "\<exists>lb2 ub2 C2. init_primal_opt gc_model 1 [] [] = Inr (lb2, ub2, C2)"
    using init_primal_opt_behaviour [of gc_model 1 "[]" "[]" ?L ?U ?C gc_pair] gc gc_model_ok(1) all4
    by blast
  have h4: "\<forall>g \<in> set (m_factor_types gc_model).
           (cardinalities g = [2, 2] \<longrightarrow>
              w_dim g = 4 \<and> length (get_params_mapping gc_model (type_id g)) = 4) \<and>
           (cardinalities g \<noteq> [2, 2] \<longrightarrow>
              (\<forall>j \<in> set (get_params_mapping gc_model (type_id g)). ?L ! j = MinusInfty))"
    using init_primal_opt_behaviour [of gc_model 1 "[]" "[]" ?L ?U ?C gc_pair] gc gc_model_ok(1) run
    by blast
  have mem: "gc_pair \<in> set (m_factor_types gc_model)" "ex_type \<in> set (m_factor_types gc_model)"
    "cardinalities gc_pair = [2, 2]" "cardinalities ex_type \<noteq> [2, 2]"
    by (simp_all add: gc_model_def gc_pair_def ex_type_def)
  from h4 mem have h4a: "w_dim gc_pair = 4 \<and> length (get_params_mapping gc_model (type_id gc_pair)) = 4"
    and h4c: "\<forall>j \<in> set (get_params_mapping gc_model (type_id ex_type)). ?L ! j = MinusInfty"
    by blast+
  have "get_params_mapping gc_model (type_id ex_type) = [0, 1, 2, 3]"
    by (simp add: get_params_mapping_def gc_model_def ex_type_def find_vec_def upt_conv_Cons)
  then have "get_params_mapping gc_model (type_id ex_type) ! 0
      \<in> set (get_params_mapping gc_model (type_id ex_type))"
    by simp
  with h4c have h4b: "?L ! (get_params_mapping gc_model (type_id ex_type) ! 0) = MinusInfty"
    by blast
  have t: "m_inf_type scenario_m1 \<noteq> GRAPH_CUT" by (simp add: scenario_defs)
  have h5: "init_primal_opt scenario_m1 1 [Finite 0, Finite 0] [Finite 0, Finite 0]
     = Inr ([Finite 0, Finite 0], [Finite 0, Finite 0], create_identity_matrix (get_dim scenario_m1) 1)"
    using init_primal_opt_behaviour [of scenario_m1 1 "[Finite 0, Finite 0]" "[Finite 0, Finite 0]" ?L ?U ?C gc_pair] t
    by blast
  show ?thesis using h1 h2 h3 h4a h4b h5 by blast
qed

section \<open>argmax\<close>

lemma w_to_fparams_fields:
  "w_to_fparams wv m = Inr m' \<Longrightarrow>
   m_labels m' = m_labels m \<and> m_inf_type m' = m_inf_type m \<and>
   m_features m' = m_features m \<and> m_w_map m' = m_w_map m"
  by (auto simp: w_to_fparams_def split: if_splits sum.splits prod.splits)

lemma argmax_prepare_success:
  assumes "argmax_prepare ext m wv feat_idx = (tr, Inr m2)"
  shows "tr = Connect_components # (if m_inf_type m = TREE_MAX_PROD then [Is_tree_graph] else [])
                @ [Compute_energies]"
    and "m_labels m2 = m_labels m" and "m_inf_type m2 = m_inf_type m" and "m_w_map m2 = m_w_map m"
proof -
  let ?m0 = "m\<lparr>m_features := (m_features m)(feat_idx := connect_components ext (m_features m feat_idx))\<rparr>"
  from assms obtain m1 where w: "w_to_fparams wv ?m0 = Inr m1"
    and m2: "m2 = m1\<lparr>m_features := (m_features m1)
                (feat_idx := compute_energies ext (m_factor_types m1) (m_features m1 feat_idx))\<rparr>"
    and tr: "tr = Connect_components # (if m_inf_type m = TREE_MAX_PROD then [Is_tree_graph] else [])
                @ [Compute_energies]"
    by (auto simp: argmax_prepare_def Let_def split: if_splits sum.splits)
  from w_to_fparams_fields [OF w] m2
  show "m_labels m2 = m_labels m" "m_inf_type m2 = m_inf_type m" "m_w_map m2 = m_w_map m"
    by simp_all
  show "tr = Connect_components # (if m_inf_type m = TREE_MAX_PROD then [Is_tree_graph] else [])
                @ [Compute_energies]" by (rule tr)
qed



lemma argmax_success:
  assumes "argmax ext m wv feat_idx training = (tr, Inr (r, m'))"
  obtains tr0 m2 where "argmax_prepare ext m wv feat_idx = (tr0, Inr m2)"
    and "get_joint_feature_vector ext m2 feat_idx (m_labels m2 feat_idx) = Inr (rs_psi_truth r)"
    and "rs_argmax r = snd (inference ext (m_inf_type m2)
            (if training then loss_augmentation ext (m_features m2 feat_idx) (m_labels m2 feat_idx)
             else m_features m2 feat_idx))"
    and "rs_score r = evaluate_energy ext (m_features m2 feat_idx) (obs_data (m_labels m2 feat_idx))
           - evaluate_energy ext
               (fst (inference ext (m_inf_type m2)
                  (if training then loss_augmentation ext (m_features m2 feat_idx) (m_labels m2 feat_idx)
                   else m_features m2 feat_idx)))
               (obs_data (rs_argmax r))"
    and "delta_loss (m_labels m2 feat_idx) (rs_argmax r) = Inr (rs_delta r)"
    and "tr = tr0 @ [Joint_feature_vector (m_labels m2 feat_idx),
                     Evaluate_energy (obs_data (m_labels m2 feat_idx))]
               @ (if training then [Loss_augmentation (m_labels m2 feat_idx)] else [])
               @ [Inference, Joint_feature_vector (rs_argmax r),
                  Evaluate_energy (obs_data (rs_argmax r))]"
proof -
  obtain tr0 res where p: "argmax_prepare ext m wv feat_idx = (tr0, res)"
    by (cases "argmax_prepare ext m wv feat_idx")
  show ?thesis
  proof (cases res)
    case (Inl e)
    with p assms show ?thesis by (simp add: argmax_def)
  next
    case (Inr m2)
    with p have p2: "argmax_prepare ext m wv feat_idx = (tr0, Inr m2)" by simp
    from assms show ?thesis
      unfolding argmax_def p2
      by (intro that [OF p2]) (auto simp: Let_def split: sum.splits)
  qed
qed


lemma ex_w_to_fparams:
  "w_to_fparams ex_w (ex_model\<lparr>m_features := f\<rparr>)
     = Inr (ex_model\<lparr>m_features := f, m_w_cache := ex_w, m_factor_types := [ex_type\<lparr>w := ex_w\<rparr>]\<rparr>)"
  by (simp add: w_to_fparams_def ex_model_def ex_w_def ex_find_vec gather_def ex_type_def
      upt_conv_Cons eval_nat_numeral)

lemma ex_prepare:
  "argmax_prepare ex_ext ex_model ex_w 0
     = ([Connect_components, Is_tree_graph, Compute_energies], Inr ex_model2)"
proof -
  have a: "m_inf_type ex_model = TREE_MAX_PROD" "is_tree_graph ex_ext g" "connect_components ex_ext g = g"
    "m_features ex_model = (\<lambda>i. [0, 0])" for g
    by (simp_all add: ex_model_def ex_ext_def)
  have b: "compute_energies ex_ext [ex_type\<lparr>w := ex_w\<rparr>] g = [0, - 1]" for g
    by (simp add: ex_ext_def ex_compute_energies_def ex_w_def)
  show ?thesis
    by (simp add: argmax_prepare_def a ex_w_to_fparams b Let_def)
       (simp add: ex_model_def ex_model2_def)
qed

lemma ex_model2_fields:
  "m_w_map ex_model2 = [1, 1, 1, 1]" "m_features ex_model2 0 = [0, - 1]"
  "m_labels ex_model2 i = ex_truth" "m_inf_type ex_model2 = TREE_MAX_PROD"
  by (simp_all add: ex_model2_def)

lemma ex_ext_fields:
  "evaluate_energy ex_ext g states = g ! nat (hd states)"
  "loss_augmentation ex_ext = ex_loss_augmentation"
  "inference ex_ext = ex_inference"
  by (simp_all add: ex_ext_def)

lemma ex_delta: "delta_loss ex_truth ex_other = Inr 1"
  by (simp add: delta_loss_def ex_truth_def ex_other_def)

lemma ex_argmax_plain:
  "\<exists>m'. argmax ex_ext ex_model ex_w 0 False =
     ([Connect_components, Is_tree_graph, Compute_energies, Joint_feature_vector ex_truth,
       Evaluate_energy [0], Inference, Joint_feature_vector ex_other, Evaluate_energy [1]],
      Inr (ex_result 1, m'))"
proof -
  have inf: "ex_inference t [0, - 1] = ([0, - 1], ex_other)" for t
    by (simp add: ex_inference_def ex_other_def)
  have st: "obs_data ex_truth = [0]" "obs_data ex_other = [1]"
    by (simp_all add: ex_truth_def ex_other_def)
  show ?thesis
    unfolding argmax_def ex_prepare
    by (simp add: Let_def ex_model2_fields ex_ext_fields ex_joint_feature_truth
        ex_joint_feature_other inf st ex_delta ex_result_def)
qed

lemma ex_argmax_training:
  "\<exists>m'. argmax ex_ext ex_model ex_w 0 True =
     ([Connect_components, Is_tree_graph, Compute_energies, Joint_feature_vector ex_truth,
       Evaluate_energy [0], Loss_augmentation ex_truth, Inference, Joint_feature_vector ex_other,
       Evaluate_energy [1]],
      Inr (ex_result 2, m'))"
proof -
  have aug: "ex_loss_augmentation [0, - 1] ex_truth = [0, - 2]"
    by (simp add: ex_loss_augmentation_def ex_truth_def upt_conv_Cons)
  have inf: "ex_inference t [0, - 2] = ([0, - 2], ex_other)" for t
    by (simp add: ex_inference_def ex_other_def)
  have st: "obs_data ex_truth = [0]" "obs_data ex_other = [1]"
    by (simp_all add: ex_truth_def ex_other_def)
  show ?thesis
    unfolding argmax_def ex_prepare
    by (simp add: Let_def ex_model2_fields ex_ext_fields ex_joint_feature_truth
        ex_joint_feature_other aug inf st ex_delta ex_result_def)
qed


text \<open>
  Claim C2 fails on the code when \<open>training\<close> is false: no loss is subtracted from the
  energies, so the score is the plain energy difference. On the example graph the
  prediction is state 1, the score is \<open>0 - (-1) = 1\<close> and the loss is 1, while the
  max-oracle value \<open>[loss - E(y_star)] + E(y_truth)\<close> is \<open>(1 - (-1)) + 0 = 2\<close>.
\<close>

theorem argmax_score_without_training:
  "snd (argmax_prepare ex_ext ex_model ex_w 0) = Inr ex_model2 \<and>
   map_sum id fst (snd (argmax ex_ext ex_model ex_w 0 False)) = Inr (ex_result 1) \<and>
   rs_score (ex_result 1) = 1 \<and> rs_delta (ex_result 1) = 1 \<and>
   (rs_delta (ex_result 1) - evaluate_energy ex_ext (m_features ex_model2 0) (obs_data ex_other))
     + evaluate_energy ex_ext (m_features ex_model2 0) (obs_data ex_truth) = 2"
proof -
  from ex_argmax_plain obtain m' tr where "argmax ex_ext ex_model ex_w 0 False = (tr, Inr (ex_result 1, m'))"
    by blast
  then have "map_sum id fst (snd (argmax ex_ext ex_model ex_w 0 False)) = Inr (ex_result 1)"
    by simp
  then show ?thesis
    by (simp add: ex_prepare ex_result_def ex_ext_fields ex_model2_fields ex_truth_def ex_other_def)
qed

text \<open>
  Claim C2, amended. Whenever \<^verbatim>\<open>argmax\<close> returns a result set, its first part returned
  a model whose graph \<open>fg\<close> holds the energies computed from \<open>w\<close>; the prediction is the
  output of the inference on the graph after the optional loss augmentation; the score
  is the energy of the ground truth on \<open>fg\<close> minus the energy of the prediction on the
  graph the inference leaves; \<open>delta\<close> is \<^verbatim>\<open>delta_loss\<close> of ground truth and prediction.
  When \<open>training\<close> is true and the energy of the prediction on that graph is its energy
  on \<open>fg\<close> minus the loss (what the loss augmentation of the specification provides),
  the score is the max-oracle value \<open>[loss - E(y_star)] + E(y_truth)\<close>. When \<open>training\<close>
  is false and the inference leaves the energies alone, the score is
  \<open>E(y_truth) - E(y_star)\<close>, without the loss.
\<close>

theorem argmax_score:
  fixes m :: "'g model"
  shows "argmax ext m wv feat_idx training = (tr, Inr (r, m')) \<longrightarrow>
     (\<exists>tr0 m2. argmax_prepare ext m wv feat_idx = (tr0, Inr m2) \<and>
        (let fg = m_features m2 feat_idx;
             y_truth = m_labels m feat_idx;
             fg_aug = (if training then loss_augmentation ext fg y_truth else fg);
             fg_inf = fst (inference ext (m_inf_type m) fg_aug);
             y_star = snd (inference ext (m_inf_type m) fg_aug)
         in rs_argmax r = y_star \<and>
            get_joint_feature_vector ext m2 feat_idx y_truth = Inr (rs_psi_truth r) \<and>
            rs_score r = evaluate_energy ext fg (obs_data y_truth)
                           - evaluate_energy ext fg_inf (obs_data y_star) \<and>
            delta_loss y_truth y_star = Inr (rs_delta r) \<and>
            (training \<and>
             evaluate_energy ext fg_inf (obs_data y_star)
               = evaluate_energy ext fg (obs_data y_star) - rs_delta r \<longrightarrow>
               rs_score r = (rs_delta r - evaluate_energy ext fg (obs_data y_star))
                              + evaluate_energy ext fg (obs_data y_truth)) \<and>
            (\<not> training \<and>
             evaluate_energy ext fg_inf (obs_data y_star) = evaluate_energy ext fg (obs_data y_star) \<longrightarrow>
               rs_score r = evaluate_energy ext fg (obs_data y_truth)
                              - evaluate_energy ext fg (obs_data y_star))))"
proof
  assume a: "argmax ext m wv feat_idx training = (tr, Inr (r, m'))"
  from a obtain tr0 m2 where p: "argmax_prepare ext m wv feat_idx = (tr0, Inr m2)"
    and psi: "get_joint_feature_vector ext m2 feat_idx (m_labels m2 feat_idx) = Inr (rs_psi_truth r)"
    and ys: "rs_argmax r = snd (inference ext (m_inf_type m2)
            (if training then loss_augmentation ext (m_features m2 feat_idx) (m_labels m2 feat_idx)
             else m_features m2 feat_idx))"
    and sc: "rs_score r = evaluate_energy ext (m_features m2 feat_idx) (obs_data (m_labels m2 feat_idx))
           - evaluate_energy ext
               (fst (inference ext (m_inf_type m2)
                  (if training then loss_augmentation ext (m_features m2 feat_idx) (m_labels m2 feat_idx)
                   else m_features m2 feat_idx)))
               (obs_data (rs_argmax r))"
    and dl: "delta_loss (m_labels m2 feat_idx) (rs_argmax r) = Inr (rs_delta r)"
    by (rule argmax_success)
  note f = argmax_prepare_success(2,3) [OF p]
  show "\<exists>tr0 m2. argmax_prepare ext m wv feat_idx = (tr0, Inr m2) \<and>
        (let fg = m_features m2 feat_idx;
             y_truth = m_labels m feat_idx;
             fg_aug = (if training then loss_augmentation ext fg y_truth else fg);
             fg_inf = fst (inference ext (m_inf_type m) fg_aug);
             y_star = snd (inference ext (m_inf_type m) fg_aug)
         in rs_argmax r = y_star \<and>
            get_joint_feature_vector ext m2 feat_idx y_truth = Inr (rs_psi_truth r) \<and>
            rs_score r = evaluate_energy ext fg (obs_data y_truth)
                           - evaluate_energy ext fg_inf (obs_data y_star) \<and>
            delta_loss y_truth y_star = Inr (rs_delta r) \<and>
            (training \<and>
             evaluate_energy ext fg_inf (obs_data y_star)
               = evaluate_energy ext fg (obs_data y_star) - rs_delta r \<longrightarrow>
               rs_score r = (rs_delta r - evaluate_energy ext fg (obs_data y_star))
                              + evaluate_energy ext fg (obs_data y_truth)) \<and>
            (\<not> training \<and>
             evaluate_energy ext fg_inf (obs_data y_star) = evaluate_energy ext fg (obs_data y_star) \<longrightarrow>
               rs_score r = evaluate_energy ext fg (obs_data y_truth)
                              - evaluate_energy ext fg (obs_data y_star)))"
    using p psi ys sc dl unfolding f Let_def
    by (intro exI [of _ tr0] exI [of _ m2]) auto
qed

theorem argmax_score_witness:
  "rs_score (ex_result 2)
     = (rs_delta (ex_result 2) - evaluate_energy ex_ext (m_features ex_model2 0) (obs_data ex_other))
       + evaluate_energy ex_ext (m_features ex_model2 0) (obs_data ex_truth) \<and>
   rs_score (ex_result 1)
     = evaluate_energy ex_ext (m_features ex_model2 0) (obs_data ex_truth)
       - evaluate_energy ex_ext (m_features ex_model2 0) (obs_data ex_other)"
proof -
  have lab: "m_labels ex_model 0 = ex_truth" and ty: "m_inf_type ex_model = TREE_MAX_PROD"
    by (simp_all add: ex_model_def)
  have aug: "ex_loss_augmentation [0, - 1] ex_truth = [0, - 2]"
    by (simp add: ex_loss_augmentation_def ex_truth_def upt_conv_Cons)
  have inf: "ex_inference t [0, - 2] = ([0, - 2], ex_other)" "ex_inference t [0, - 1] = ([0, - 1], ex_other)" for t
    by (simp_all add: ex_inference_def ex_other_def)
  have st: "obs_data ex_truth = [0]" "obs_data ex_other = [1]"
    by (simp_all add: ex_truth_def ex_other_def)
  from ex_argmax_training obtain tr1 m1
    where r1: "argmax ex_ext ex_model ex_w 0 True = (tr1, Inr (ex_result 2, m1))" by blast
  from ex_argmax_plain obtain tr2 m2
    where r2: "argmax ex_ext ex_model ex_w 0 False = (tr2, Inr (ex_result 1, m2))" by blast
  from argmax_score [of ex_ext ex_model ex_w 0 True tr1 "ex_result 2" m1] r1
  have "rs_score (ex_result 2)
     = (rs_delta (ex_result 2) - evaluate_energy ex_ext (m_features ex_model2 0) (obs_data ex_other))
       + evaluate_energy ex_ext (m_features ex_model2 0) (obs_data ex_truth)"
    by (simp add: ex_prepare Let_def lab ty ex_ext_fields ex_model2_fields aug inf st ex_result_def)
  moreover from argmax_score [of ex_ext ex_model ex_w 0 False tr2 "ex_result 1" m2] r2
  have "rs_score (ex_result 1)
     = evaluate_energy ex_ext (m_features ex_model2 0) (obs_data ex_truth)
       - evaluate_energy ex_ext (m_features ex_model2 0) (obs_data ex_other)"
    by (simp add: ex_prepare Let_def lab ty ex_ext_fields ex_model2_fields inf st ex_result_def)
  ultimately show ?thesis by blast
qed



section \<open>argmax and the loss augmentation\<close>













end
